theory Spec2Isabelle
  imports Complex_Main "HOL-Library.Sublist"
begin

section \<open>JavaScript numbers\<close>

text \<open>
  The simulator computes with JavaScript numbers. A finite double is read as the real
  number it stands for (no rounding, no overflow); the three special values that the
  program can produce by dividing by zero, taking the logarithm of zero or the square
  root of a negative number, or by converting \<^verbatim>\<open>undefined\<close> to a number, are kept
  apart. The sign of a zero is not tracked: a zero divisor is read as \<^verbatim>\<open>+0\<close>.
\<close>

datatype jsnum = Fin real | PInf | NInf | NaN

fun is_finite :: "jsnum \<Rightarrow> bool" where
  "is_finite (Fin x) = True"
| "is_finite PInf = False"
| "is_finite NInf = False"
| "is_finite NaN = False"

instantiation jsnum :: "{plus, minus, uminus, times, inverse, ord}"
begin

fun uminus_jsnum :: "jsnum \<Rightarrow> jsnum" where
  "uminus_jsnum (Fin x) = Fin (- x)"
| "uminus_jsnum PInf = NInf"
| "uminus_jsnum NInf = PInf"
| "uminus_jsnum NaN = NaN"

fun plus_jsnum :: "jsnum \<Rightarrow> jsnum \<Rightarrow> jsnum" where
  "plus_jsnum (Fin x) (Fin y) = Fin (x + y)"
| "plus_jsnum (Fin x) PInf = PInf"
| "plus_jsnum (Fin x) NInf = NInf"
| "plus_jsnum PInf (Fin y) = PInf"
| "plus_jsnum PInf PInf = PInf"
| "plus_jsnum PInf NInf = NaN"
| "plus_jsnum NInf (Fin y) = NInf"
| "plus_jsnum NInf PInf = NaN"
| "plus_jsnum NInf NInf = NInf"
| "plus_jsnum NaN b = NaN"
| "plus_jsnum a NaN = NaN"

definition minus_jsnum :: "jsnum \<Rightarrow> jsnum \<Rightarrow> jsnum" where
  "minus_jsnum a b = a + (- b)"

fun times_jsnum :: "jsnum \<Rightarrow> jsnum \<Rightarrow> jsnum" where
  "times_jsnum (Fin x) (Fin y) = Fin (x * y)"
| "times_jsnum (Fin x) PInf = (if x = 0 then NaN else if 0 < x then PInf else NInf)"
| "times_jsnum (Fin x) NInf = (if x = 0 then NaN else if 0 < x then NInf else PInf)"
| "times_jsnum PInf (Fin y) = (if y = 0 then NaN else if 0 < y then PInf else NInf)"
| "times_jsnum NInf (Fin y) = (if y = 0 then NaN else if 0 < y then NInf else PInf)"
| "times_jsnum PInf PInf = PInf"
| "times_jsnum PInf NInf = NInf"
| "times_jsnum NInf PInf = NInf"
| "times_jsnum NInf NInf = PInf"
| "times_jsnum NaN b = NaN"
| "times_jsnum a NaN = NaN"

fun divide_jsnum :: "jsnum \<Rightarrow> jsnum \<Rightarrow> jsnum" where
  "divide_jsnum (Fin x) (Fin y) =
     (if y = 0 then (if x = 0 then NaN else if 0 < x then PInf else NInf)
      else Fin (x / y))"
| "divide_jsnum (Fin x) PInf = Fin 0"
| "divide_jsnum (Fin x) NInf = Fin 0"
| "divide_jsnum PInf (Fin y) = (if 0 \<le> y then PInf else NInf)"
| "divide_jsnum NInf (Fin y) = (if 0 \<le> y then NInf else PInf)"
| "divide_jsnum PInf PInf = NaN"
| "divide_jsnum PInf NInf = NaN"
| "divide_jsnum NInf PInf = NaN"
| "divide_jsnum NInf NInf = NaN"
| "divide_jsnum NaN b = NaN"
| "divide_jsnum a NaN = NaN"

definition inverse_jsnum :: "jsnum \<Rightarrow> jsnum" where
  "inverse_jsnum a = divide (Fin 1) a"

text \<open>Comparisons: every comparison with \<^verbatim>\<open>NaN\<close> is false.\<close>

fun less_jsnum :: "jsnum \<Rightarrow> jsnum \<Rightarrow> bool" where
  "less_jsnum (Fin x) (Fin y) = (x < y)"
| "less_jsnum (Fin x) PInf = True"
| "less_jsnum (Fin x) NInf = False"
| "less_jsnum PInf b = False"
| "less_jsnum NInf (Fin y) = True"
| "less_jsnum NInf PInf = True"
| "less_jsnum NInf NInf = False"
| "less_jsnum NaN b = False"
| "less_jsnum a NaN = False"

fun less_eq_jsnum :: "jsnum \<Rightarrow> jsnum \<Rightarrow> bool" where
  "less_eq_jsnum (Fin x) (Fin y) = (x \<le> y)"
| "less_eq_jsnum (Fin x) PInf = True"
| "less_eq_jsnum (Fin x) NInf = False"
| "less_eq_jsnum PInf (Fin y) = False"
| "less_eq_jsnum PInf PInf = True"
| "less_eq_jsnum PInf NInf = False"
| "less_eq_jsnum NInf (Fin y) = True"
| "less_eq_jsnum NInf PInf = True"
| "less_eq_jsnum NInf NInf = True"
| "less_eq_jsnum NaN b = False"
| "less_eq_jsnum a NaN = False"

instance ..

end

text \<open>\<^verbatim>\<open>Math.sqrt\<close>, \<^verbatim>\<open>Math.exp\<close>, \<^verbatim>\<open>Math.log\<close>, \<^verbatim>\<open>Math.ceil\<close>.\<close>

fun Math_sqrt :: "jsnum \<Rightarrow> jsnum" where
  "Math_sqrt (Fin x) = (if x < 0 then NaN else Fin (sqrt x))"
| "Math_sqrt PInf = PInf"
| "Math_sqrt NInf = NaN"
| "Math_sqrt NaN = NaN"

fun Math_exp :: "jsnum \<Rightarrow> jsnum" where
  "Math_exp (Fin x) = Fin (exp x)"
| "Math_exp PInf = PInf"
| "Math_exp NInf = Fin 0"
| "Math_exp NaN = NaN"

fun Math_log :: "jsnum \<Rightarrow> jsnum" where
  "Math_log (Fin x) = (if x < 0 then NaN else if x = 0 then NInf else Fin (ln x))"
| "Math_log PInf = PInf"
| "Math_log NInf = NaN"
| "Math_log NaN = NaN"

fun Math_ceil :: "jsnum \<Rightarrow> jsnum" where
  "Math_ceil (Fin x) = Fin (of_int \<lceil>x\<rceil>)"
| "Math_ceil PInf = PInf"
| "Math_ceil NInf = NInf"
| "Math_ceil NaN = NaN"

text \<open>\<^verbatim>\<open>Math.max(a, b)\<close> and \<^verbatim>\<open>Math.min(a, b)\<close>: \<^verbatim>\<open>NaN\<close> if either argument is.\<close>

definition Math_max :: "jsnum \<Rightarrow> jsnum \<Rightarrow> jsnum" where
  "Math_max a b = (if a = NaN \<or> b = NaN then NaN else if a \<le> b then b else a)"

definition Math_min :: "jsnum \<Rightarrow> jsnum \<Rightarrow> jsnum" where
  "Math_min a b = (if a = NaN \<or> b = NaN then NaN else if a \<le> b then a else b)"

text \<open>
  \<^verbatim>\<open>Math.max(...xs)\<close> and \<^verbatim>\<open>Math.min(...xs)\<close> over a spread array: the empty
  array gives \<^verbatim>\<open>-Infinity\<close> and \<^verbatim>\<open>Infinity\<close>.
\<close>

definition Math_max_spread :: "jsnum list \<Rightarrow> jsnum" where
  "Math_max_spread xs = foldl Math_max NInf xs"

definition Math_min_spread :: "jsnum list \<Rightarrow> jsnum" where
  "Math_min_spread xs = foldl Math_min PInf xs"

section \<open>Errors and arrays\<close>

text \<open>
  The exceptions the code can raise: the \<^verbatim>\<open>RangeError\<close> of \<^verbatim>\<open>new Array(len)\<close> on
  an invalid length, the \<^verbatim>\<open>TypeError\<close> of \<^verbatim>\<open>reduce\<close> on an empty array without an
  initial value, and the \<^verbatim>\<open>Error\<close>s the code throws itself, with their message.
\<close>

datatype error = RangeError | TypeError | Error string

text \<open>\<^verbatim>\<open>new Array(len)\<close> accepts the integers from 0 up to \<^verbatim>\<open>2^32 - 1\<close>.\<close>

fun array_length :: "jsnum \<Rightarrow> nat option" where
  "array_length (Fin x) =
     (if 0 \<le> x \<and> of_int \<lfloor>x\<rfloor> = x \<and> x < 4294967296 then Some (nat \<lfloor>x\<rfloor>) else None)"
| "array_length PInf = None"
| "array_length NInf = None"
| "array_length NaN = None"

text \<open>\<^verbatim>\<open>xs.reduce(f)\<close> without an initial value.\<close>

fun reduce1 :: "('a \<Rightarrow> 'a \<Rightarrow> 'a) \<Rightarrow> 'a list \<Rightarrow> error + 'a" where
  "reduce1 f [] = Inl TypeError"
| "reduce1 f (x # xs) = Inr (foldl f x xs)"

text \<open>
  \<^verbatim>\<open>xs.slice(0, end)\<close>: the end is truncated toward zero, a negative end counts from
  the back of the array, \<^verbatim>\<open>NaN\<close> is read as 0.
\<close>

fun slice0 :: "'a list \<Rightarrow> jsnum \<Rightarrow> 'a list" where
  "slice0 xs (Fin e) =
     (if e < 0 then take (length xs - nat \<lfloor>- e\<rfloor>) xs else take (nat \<lfloor>e\<rfloor>) xs)"
| "slice0 xs PInf = xs"
| "slice0 xs NInf = []"
| "slice0 xs NaN = []"

section \<open>Correlation utilities: Cholesky factorisation\<close>

type_synonym matrix = "jsnum list list"

text \<open>
  \<^verbatim>\<open>matrix[i][j]\<close> for a row index inside the matrix; a column outside the row reads
  \<^verbatim>\<open>undefined\<close>, which the arithmetic that follows turns into \<^verbatim>\<open>NaN\<close>.
\<close>

definition entry :: "matrix \<Rightarrow> nat \<Rightarrow> nat \<Rightarrow> jsnum" where
  "entry A i j = (if j < length (A ! i) then A ! i ! j else NaN)"

text \<open>\<^verbatim>\<open>L[i][j] = v\<close>.\<close>

definition set_entry :: "matrix \<Rightarrow> nat \<Rightarrow> nat \<Rightarrow> jsnum \<Rightarrow> matrix" where
  "set_entry L i j v = L[i := (L ! i)[j := v]]"

text \<open>The body of the loop over \<open>j\<close>: one entry of row \<open>i\<close>.\<close>

definition cholesky_entry :: "matrix \<Rightarrow> nat \<Rightarrow> matrix \<Rightarrow> nat \<Rightarrow> matrix" where
  "cholesky_entry A i L j =
     (if j = i then
        (let sum = foldl (\<lambda>s k. s + entry L j k * entry L j k) (Fin 0) [0..<j]
         in set_entry L i j (Math_sqrt (entry A i i - sum)))
      else
        (let sum = foldl (\<lambda>s k. s + entry L i k * entry L j k) (Fin 0) [0..<j]
         in set_entry L i j ((entry A i j - sum) / entry L j j)))"

text \<open>
  The loop over \<open>i\<close>, with \<open>k\<close> rows left: row \<open>i\<close> is filled for \<open>j = 0, ..., i\<close>, then
  its diagonal entry is checked.
\<close>

fun cholesky_rows :: "matrix \<Rightarrow> nat \<Rightarrow> nat \<Rightarrow> matrix \<Rightarrow> error + matrix" where
  "cholesky_rows A 0 i L = Inr L"
| "cholesky_rows A (Suc k) i L =
     (let L' = foldl (cholesky_entry A i) L [0..<Suc i]
      in if entry L' i i \<le> Fin 0 then Inl (Error ''Matrix is not positive definite'')
         else cholesky_rows A k (Suc i) L')"

definition cholesky :: "matrix \<Rightarrow> error + matrix" where
  "cholesky A =
     (let n = length A
      in cholesky_rows A n 0 (replicate n (replicate n (Fin 0))))"

text \<open>\<^verbatim>\<open>isSymmetric\<close>, on the entries below the diagonal, with its tolerance.\<close>

definition Math_abs :: "jsnum \<Rightarrow> jsnum" where
  "Math_abs a = (case a of Fin x \<Rightarrow> Fin \<bar>x\<bar> | PInf \<Rightarrow> PInf | NInf \<Rightarrow> PInf | NaN \<Rightarrow> NaN)"

definition isSymmetric :: "matrix \<Rightarrow> bool" where
  "isSymmetric A =
     list_all (\<lambda>i. list_all (\<lambda>j. \<not> Fin (1 / 10 ^ 10) < Math_abs (entry A i j - entry A j i))
                   [0..<i])
       [0..<length A]"

section \<open>The random source\<close>

text \<open>
  \<^verbatim>\<open>Math.random()\<close> is the program's only source of randomness. Its state is the
  sequence of numbers it is going to return and the position in that sequence; a call
  returns the number at the position and moves one further.
\<close>

type_synonym rng = "(nat \<Rightarrow> real) \<times> nat"

definition Math_random :: "rng \<Rightarrow> real \<times> rng" where
  "Math_random g = (fst g (snd g), (fst g, Suc (snd g)))"

section \<open>The simulation object\<close>

text \<open>
  An object literal passed to a constructor, by the type of its properties. A property
  that is absent reads \<^verbatim>\<open>undefined\<close>.
\<close>

record jsobject =
  numbers :: "string \<rightharpoonup> jsnum"
  booleans :: "string \<rightharpoonup> bool"
  strings :: "string \<rightharpoonup> string"

text \<open>
  The fields of a \<^verbatim>\<open>MonteCarloSimulation\<close>. The uses of a numeric field are
  arithmetic operations and comparisons, which convert \<^verbatim>\<open>undefined\<close> to \<^verbatim>\<open>NaN\<close>;
  a numeric field that was assigned \<^verbatim>\<open>undefined\<close> therefore holds \<^verbatim>\<open>NaN\<close> here.
  The one use that tells the two apart is \<^verbatim>\<open>new Array(this.simulations)\<close>, which
  builds the one-element array \<^verbatim>\<open>[undefined]\<close> from \<^verbatim>\<open>undefined\<close> and throws on
  \<^verbatim>\<open>NaN\<close>: the model covers simulations whose \<^verbatim>\<open>simulations\<close> is a number, and
  every statement below about \<open>generateRandomNumbers\<close> or \<open>simulatePaths\<close> assumes a
  count. The field \<^verbatim>\<open>type\<close> is named \<open>otype\<close>.
\<close>

record sim =
  S0 :: jsnum
  K :: jsnum
  sigma :: jsnum
  r :: jsnum
  T :: jsnum
  steps :: jsnum
  simulations :: jsnum
  dt :: jsnum
  useAntithetic :: bool
  useStratified :: bool
  jumpDiffusion :: bool
  otype :: string
  lambda :: jsnum
  muJ :: jsnum
  sigmaJ :: jsnum

definition number_property :: "jsobject \<Rightarrow> string \<Rightarrow> jsnum" where
  "number_property p k = (case numbers p k of None \<Rightarrow> NaN | Some x \<Rightarrow> x)"

text \<open>A destructured parameter with a default value: the default replaces \<^verbatim>\<open>undefined\<close>.\<close>

definition with_default :: "'a option \<Rightarrow> 'a \<Rightarrow> 'a" where
  "with_default v d = (case v of None \<Rightarrow> d | Some x \<Rightarrow> x)"

definition MonteCarloSimulation :: "jsobject \<Rightarrow> sim" where
  "MonteCarloSimulation p =
     (let jd = with_default (booleans p ''jumpDiffusion'') False
      in \<lparr> S0 = number_property p ''spot'',
           K = number_property p ''strike'',
           sigma = number_property p ''volatility'',
           r = number_property p ''riskFreeRate'',
           T = number_property p ''maturity'',
           steps = number_property p ''steps'',
           simulations = number_property p ''simulations'',
           dt = number_property p ''maturity'' / number_property p ''steps'',
           useAntithetic = with_default (booleans p ''useAntithetic'') True,
           useStratified = with_default (booleans p ''useStratified'') True,
           jumpDiffusion = jd,
           otype = with_default (strings p ''type'') ''call'',
           lambda = (if jd then Fin 1 else NaN),
           muJ = (if jd then Fin (- 0.1) else NaN),
           sigmaJ = (if jd then Fin 0.2 else NaN) \<rparr>)"

text \<open>
  The own properties of an instance, under the names the constructor assigned them to:
  what the spread \<^verbatim>\<open>{...this}\<close> copies. The three jump parameters exist only when
  the constructor created them.
\<close>

definition own_properties :: "'a sim_scheme \<Rightarrow> jsobject" where
  "own_properties this =
     \<lparr> numbers =
         [''S0'' \<mapsto> S0 this, ''K'' \<mapsto> K this, ''sigma'' \<mapsto> sigma this, ''r'' \<mapsto> r this,
          ''T'' \<mapsto> T this, ''steps'' \<mapsto> steps this, ''simulations'' \<mapsto> simulations this,
          ''dt'' \<mapsto> dt this]
         ++ (if jumpDiffusion this
             then [''lambda'' \<mapsto> lambda this, ''muJ'' \<mapsto> muJ this, ''sigmaJ'' \<mapsto> sigmaJ this]
             else Map.empty),
       booleans =
         [''useAntithetic'' \<mapsto> useAntithetic this, ''useStratified'' \<mapsto> useStratified this,
          ''jumpDiffusion'' \<mapsto> jumpDiffusion this],
       strings = [''type'' \<mapsto> otype this] \<rparr>"

section \<open>Special functions\<close>

text \<open>\<^verbatim>\<open>normalInverse\<close>: Acklam's approximation, with the coefficients of the source.\<close>

definition normalInverse :: "jsnum \<Rightarrow> jsnum" where
  "normalInverse p =
     (let a1 = Fin (- 39.6968302866538); a2 = Fin 220.946098424521;
          a3 = Fin (- 275.928510446969); a4 = Fin 138.357751867269;
          a5 = Fin (- 30.6647980661472); a6 = Fin 2.50662827745924;
          b1 = Fin (- 54.4760987982241); b2 = Fin 161.585836858041;
          b3 = Fin (- 155.698979859887); b4 = Fin 66.8013118877197;
          b5 = Fin (- 13.2806815528857);
          c1 = Fin (- 0.00778489400243029); c2 = Fin (- 0.322396458041136);
          c3 = Fin (- 2.40075827716184); c4 = Fin (- 2.54973253934373);
          c5 = Fin 4.37466414146497; c6 = Fin 2.93816398269878;
          d1 = Fin 0.00778469570904146; d2 = Fin 0.32246712907004;
          d3 = Fin 2.445134137143; d4 = Fin 3.75440866190742;
          p_low = Fin 0.02425;
          p_high = Fin 1 - p_low
      in if p < p_low then
           (let q = Math_sqrt (Fin (- 2) * Math_log p)
            in (((((c1 * q + c2) * q + c3) * q + c4) * q + c5) * q + c6) /
               ((((d1 * q + d2) * q + d3) * q + d4) * q + Fin 1))
         else if p \<le> p_high then
           (let q = p - Fin 0.5; s = q * q
            in (((((a1 * s + a2) * s + a3) * s + a4) * s + a5) * s + a6) * q /
               (((((b1 * s + b2) * s + b3) * s + b4) * s + b5) * s + Fin 1))
         else
           (let q = Math_sqrt (Fin (- 2) * Math_log (Fin 1 - p))
            in - (((((c1 * q + c2) * q + c3) * q + c4) * q + c5) * q + c6) /
               ((((d1 * q + d2) * q + d3) * q + d4) * q + Fin 1)))"

section \<open>The random path generator\<close>

text \<open>
  A loop \<^verbatim>\<open>for (i = ...; ...; i++) z[i] = f(i, Math.random())\<close> with \<open>n\<close> iterations
  left: the array entries it writes, in order, and the random source after it.
\<close>

fun draws :: "(nat \<Rightarrow> real \<Rightarrow> jsnum) \<Rightarrow> nat \<Rightarrow> nat \<Rightarrow> rng \<Rightarrow> jsnum list \<times> rng" where
  "draws f i 0 g = ([], g)"
| "draws f i (Suc n) g =
     (let (u, g1) = Math_random g;
          (zs, g2) = draws f (Suc i) n g1
      in (f i u # zs, g2))"

definition generateRandomNumbers :: "'a sim_scheme \<Rightarrow> rng \<Rightarrow> error + (jsnum list \<times> rng)" where
  "generateRandomNumbers this g =
     (let effectiveSimulations =
            (if useAntithetic this then Math_ceil (simulations this / Fin 2)
             else simulations this)
      in case array_length effectiveSimulations of
           None \<Rightarrow> Inl RangeError
         | Some n \<Rightarrow>
             (let (z, g') =
                    (if useStratified this then
                       draws (\<lambda>i u. normalInverse ((Fin (real i) + Fin u) / effectiveSimulations))
                         0 n g
                     else draws (\<lambda>i u. normalInverse (Fin u)) 0 n g)
              in Inr (if useAntithetic this
                      then slice0 (z @ map uminus z) (simulations this)
                      else z, g')))"

definition drift :: "'a sim_scheme \<Rightarrow> jsnum" where
  "drift this = (r this - Fin 0.5 * sigma this * sigma this) * dt this"

definition diffusion :: "'a sim_scheme \<Rightarrow> jsnum" where
  "diffusion this = sigma this * Math_sqrt (dt this)"

text \<open>\<^verbatim>\<open>xs[0]\<close>, used as a number: \<^verbatim>\<open>undefined\<close> on the empty array.\<close>

definition first_number :: "jsnum list \<Rightarrow> jsnum" where
  "first_number xs = (case xs of [] \<Rightarrow> NaN | x # _ \<Rightarrow> x)"

text \<open>
  The body of the loop over the steps of one path: from the previous price to the next
  one.
\<close>

definition path_step :: "'a sim_scheme \<Rightarrow> jsnum \<Rightarrow> rng \<Rightarrow> error + (jsnum \<times> rng)" where
  "path_step this prev g =
     (case generateRandomNumbers this g of
        Inl e \<Rightarrow> Inl e
      | Inr (zs, g1) \<Rightarrow>
          (let z = first_number zs;
               movement = drift this + diffusion this * z
           in if jumpDiffusion this then
                (let (u, g2) = Math_random g1
                 in if Fin u < lambda this * dt this then
                      (let (v, g3) = Math_random g2;
                           jumpSize = muJ this + sigmaJ this * normalInverse (Fin v)
                       in Inr (prev * Math_exp (movement + jumpSize), g3))
                    else Inr (prev * Math_exp movement, g2))
              else Inr (prev * Math_exp movement, g1)))"

text \<open>The loop over the steps, with \<open>n\<close> steps left: the prices after \<open>prev\<close>.\<close>

fun path_loop :: "'a sim_scheme \<Rightarrow> nat \<Rightarrow> jsnum \<Rightarrow> rng \<Rightarrow> error + (jsnum list \<times> rng)" where
  "path_loop this 0 prev g = Inr ([], g)"
| "path_loop this (Suc n) prev g =
     (case path_step this prev g of
        Inl e \<Rightarrow> Inl e
      | Inr (p, g1) \<Rightarrow>
          (case path_loop this n p g1 of
             Inl e \<Rightarrow> Inl e
           | Inr (ps, g2) \<Rightarrow> Inr (p # ps, g2)))"

text \<open>
  The loop over the simulations, with \<open>m\<close> paths left. Each path is allocated with
  \<^verbatim>\<open>new Array(this.steps + 1)\<close>, starts at \<^verbatim>\<open>S0\<close> and takes one step for every
  \<^verbatim>\<open>step < this.steps\<close>.
\<close>

fun paths_loop :: "'a sim_scheme \<Rightarrow> nat \<Rightarrow> rng \<Rightarrow> error + (jsnum list list \<times> rng)" where
  "paths_loop this 0 g = Inr ([], g)"
| "paths_loop this (Suc m) g =
     (case array_length (steps this + Fin 1) of
        None \<Rightarrow> Inl RangeError
      | Some len \<Rightarrow>
          (case path_loop this (len - 1) (S0 this) g of
             Inl e \<Rightarrow> Inl e
           | Inr (ps, g1) \<Rightarrow>
               (case paths_loop this m g1 of
                  Inl e \<Rightarrow> Inl e
                | Inr (pss, g2) \<Rightarrow> Inr ((S0 this # ps) # pss, g2))))"

definition simulatePaths :: "'a sim_scheme \<Rightarrow> rng \<Rightarrow> error + (jsnum list list \<times> rng)" where
  "simulatePaths this g =
     (case array_length (simulations this) of
        None \<Rightarrow> Inl RangeError
      | Some m \<Rightarrow> paths_loop this m g)"

section \<open>Payoff evaluators\<close>

record confidence_interval =
  mean :: jsnum
  lower :: jsnum
  upper :: jsnum

record pricing_result =
  price :: jsnum
  confidence :: confidence_interval
  paths :: "jsnum list list"
  payoffs :: "jsnum list"

text \<open>\<^verbatim>\<open>Math.pow(x, 2)\<close>.\<close>

definition Math_pow2 :: "jsnum \<Rightarrow> jsnum" where
  "Math_pow2 x = x * x"

definition calculateConfidenceInterval :: "jsnum list \<Rightarrow> error + confidence_interval" where
  "calculateConfidenceInterval prices =
     (case reduce1 (+) prices of
        Inl e \<Rightarrow> Inl e
      | Inr acc \<Rightarrow>
          (let n = Fin (real (length prices));
               mean = acc / n;
               variance = foldl (\<lambda>a b. a + Math_pow2 (b - mean)) (Fin 0) prices / (n - Fin 1);
               stderr = Math_sqrt (variance / n);
               ci95 = Fin 1.96 * stderr
           in Inr \<lparr> mean = mean, lower = mean - ci95, upper = mean + ci95 \<rparr>))"

text \<open>
  The block \<^verbatim>\<open>// Calculate present value\<close>, which the four \<^verbatim>\<open>calculatePrice\<close>
  methods share word for word: from the undiscounted payoffs to the result.
\<close>

definition present_value ::
  "'a sim_scheme \<Rightarrow> jsnum list list \<Rightarrow> jsnum list \<Rightarrow> error + pricing_result" where
  "present_value this ps raw =
     (case reduce1 (+) raw of
        Inl e \<Rightarrow> Inl e
      | Inr acc \<Rightarrow>
          (let discount = Math_exp (- r this * T this)
           in case calculateConfidenceInterval (map (\<lambda>p. p * discount) raw) of
                Inl e \<Rightarrow> Inl e
              | Inr ci \<Rightarrow>
                  Inr \<lparr> price = acc / Fin (real (length raw)) * discount,
                        confidence = ci,
                        paths = ps,
                        payoffs = map (\<lambda>p. p * discount) raw \<rparr>))"

text \<open>
  \<^verbatim>\<open>if (!paths) paths = this.simulatePaths()\<close>: an array, also the empty one, is
  kept; \<open>None\<close> stands for \<^verbatim>\<open>null\<close> and \<^verbatim>\<open>undefined\<close>.
\<close>

definition paths_or_simulate ::
  "'a sim_scheme \<Rightarrow> jsnum list list option \<Rightarrow> rng \<Rightarrow> error + (jsnum list list \<times> rng)" where
  "paths_or_simulate this paths_arg g =
     (case paths_arg of None \<Rightarrow> simulatePaths this g | Some ps \<Rightarrow> Inr (ps, g))"

text \<open>\<^verbatim>\<open>path[path.length - 1]\<close>, used as a number.\<close>

definition final_price :: "jsnum list \<Rightarrow> jsnum" where
  "final_price path = (if path = [] then NaN else last path)"

definition vanilla_payoff :: "'a sim_scheme \<Rightarrow> jsnum \<Rightarrow> jsnum" where
  "vanilla_payoff this finalPrice =
     (if otype this = ''call'' then Math_max (finalPrice - K this) (Fin 0)
      else Math_max (K this - finalPrice) (Fin 0))"

definition calculatePrice ::
  "'a sim_scheme \<Rightarrow> jsnum list list option \<Rightarrow> rng \<Rightarrow> error + (pricing_result \<times> rng)" where
  "calculatePrice this paths_arg g =
     (case paths_or_simulate this paths_arg g of
        Inl e \<Rightarrow> Inl e
      | Inr (ps, g') \<Rightarrow>
          (case present_value this ps (map (\<lambda>path. vanilla_payoff this (final_price path)) ps) of
             Inl e \<Rightarrow> Inl e
           | Inr res \<Rightarrow> Inr (res, g')))"

text \<open>\<^verbatim>\<open>a || b\<close> on a string and on a number: the empty string, 0 and \<^verbatim>\<open>NaN\<close> are falsy.\<close>

definition or_string :: "string option \<Rightarrow> string \<Rightarrow> string" where
  "or_string v d = (case v of None \<Rightarrow> d | Some s \<Rightarrow> if s = [] then d else s)"

definition or_number :: "jsnum option \<Rightarrow> jsnum \<Rightarrow> jsnum" where
  "or_number v d = (case v of None \<Rightarrow> d | Some x \<Rightarrow> if x = Fin 0 \<or> x = NaN then d else x)"

definition startsWith :: "string \<Rightarrow> string \<Rightarrow> bool" where
  "startsWith s t = prefix t s"

definition endsWith :: "string \<Rightarrow> string \<Rightarrow> bool" where
  "endsWith s t = suffix t s"

text \<open>\<^verbatim>\<open>xs.map(f)\<close> with a callback that can throw.\<close>

fun map_throwing :: "('a \<Rightarrow> error + 'b) \<Rightarrow> 'a list \<Rightarrow> error + 'b list" where
  "map_throwing f [] = Inr []"
| "map_throwing f (x # xs) =
     (case f x of
        Inl e \<Rightarrow> Inl e
      | Inr y \<Rightarrow> (case map_throwing f xs of Inl e \<Rightarrow> Inl e | Inr ys \<Rightarrow> Inr (y # ys)))"

subsection \<open>Asian options\<close>

record asian_option = sim +
  averageType :: string

definition AsianOption :: "jsobject \<Rightarrow> asian_option" where
  "AsianOption p =
     (sim.extend (MonteCarloSimulation p)
        (asian_option.fields (or_string (strings p ''averageType'') ''arithmetic'')))
     \<lparr> otype := or_string (strings p ''type'') ''call'' \<rparr>"

definition asian_payoff :: "'a asian_option_scheme \<Rightarrow> jsnum list \<Rightarrow> error + jsnum" where
  "asian_payoff this path =
     (case (if averageType this = ''arithmetic''
            then (case reduce1 (+) path of
                    Inl e \<Rightarrow> Inl e
                  | Inr s \<Rightarrow> Inr (s / Fin (real (length path))))
            else (case reduce1 (\<lambda>a b. a + Math_log b) path of
                    Inl e \<Rightarrow> Inl e
                  | Inr s \<Rightarrow> Inr (Math_exp (s / Fin (real (length path)))))) of
        Inl e \<Rightarrow> Inl e
      | Inr average \<Rightarrow>
          (if otype this = ''call'' then Inr (Math_max (average - K this) (Fin 0))
           else Inr (Math_max (K this - average) (Fin 0))))"

definition AsianOption_calculatePrice ::
  "'a asian_option_scheme \<Rightarrow> jsnum list list option \<Rightarrow> rng \<Rightarrow> error + (pricing_result \<times> rng)"
  where
  "AsianOption_calculatePrice this paths_arg g =
     (case paths_or_simulate this paths_arg g of
        Inl e \<Rightarrow> Inl e
      | Inr (ps, g') \<Rightarrow>
          (case map_throwing (asian_payoff this) ps of
             Inl e \<Rightarrow> Inl e
           | Inr raw \<Rightarrow>
               (case present_value this ps raw of
                  Inl e \<Rightarrow> Inl e
                | Inr res \<Rightarrow> Inr (res, g'))))"

subsection \<open>Barrier options\<close>

record barrier_option = sim +
  barrierType :: string
  barrier :: jsnum

definition BarrierOption :: "jsobject \<Rightarrow> error + barrier_option" where
  "BarrierOption p =
     (let base = MonteCarloSimulation p;
          this = (sim.extend base
                    (barrier_option.fields
                       (or_string (strings p ''barrierType'') ''up-and-out'')
                       (or_number (numbers p ''barrier'') (K base * Fin 1.2))))
                 \<lparr> otype := or_string (strings p ''type'') ''call'' \<rparr>
      in if startsWith (barrierType this) ''up'' \<and> barrier this \<le> S0 this
         then Inl (Error ''Up barrier must be above spot price'')
         else if startsWith (barrierType this) ''down'' \<and> barrier this \<ge> S0 this
         then Inl (Error ''Down barrier must be below spot price'')
         else Inr this)"

definition checkBarrierHit :: "'a barrier_option_scheme \<Rightarrow> jsnum list \<Rightarrow> bool" where
  "checkBarrierHit this path =
     (if startsWith (barrierType this) ''up''
      then list_ex (\<lambda>price. price \<ge> barrier this) path
      else list_ex (\<lambda>price. price \<le> barrier this) path)"

definition barrier_payoff :: "'a barrier_option_scheme \<Rightarrow> jsnum list \<Rightarrow> jsnum" where
  "barrier_payoff this path =
     (let isBarrierHit = checkBarrierHit this path;
          finalPrice = final_price path
      in if endsWith (barrierType this) ''out''
         then (if \<not> isBarrierHit then vanilla_payoff this finalPrice else Fin 0)
         else (if isBarrierHit then vanilla_payoff this finalPrice else Fin 0))"

definition BarrierOption_calculatePrice ::
  "'a barrier_option_scheme \<Rightarrow> jsnum list list option \<Rightarrow> rng \<Rightarrow>
     error + (pricing_result \<times> rng)" where
  "BarrierOption_calculatePrice this paths_arg g =
     (case paths_or_simulate this paths_arg g of
        Inl e \<Rightarrow> Inl e
      | Inr (ps, g') \<Rightarrow>
          (case present_value this ps (map (barrier_payoff this) ps) of
             Inl e \<Rightarrow> Inl e
           | Inr res \<Rightarrow> Inr (res, g')))"

text \<open>
  \<^verbatim>\<open>adjustForContinuousBarrier\<close> assigns to \<^verbatim>\<open>this.barrier\<close>, so the object is
  returned too. When the repricing throws, the assignment that restores the barrier is
  not reached.
\<close>

definition adjustForContinuousBarrier ::
  "'a barrier_option_scheme \<Rightarrow> pricing_result \<Rightarrow> rng \<Rightarrow>
     (error + (pricing_result \<times> rng)) \<times> 'a barrier_option_scheme" where
  "adjustForContinuousBarrier this result g =
     (let beta = Fin 0.5826;
          h = T this / steps this;
          adjustment = beta * sigma this * Math_sqrt h;
          adjustedBarrier =
            (if startsWith (barrierType this) ''up''
             then barrier this * Math_exp (- adjustment)
             else barrier this * Math_exp adjustment);
          tempBarrier = barrier this;
          this1 = this \<lparr> barrier := adjustedBarrier \<rparr>
      in case BarrierOption_calculatePrice this1 (Some (paths result)) g of
           Inl e \<Rightarrow> (Inl e, this1)
         | Inr adjustedResult \<Rightarrow> (Inr adjustedResult, this1 \<lparr> barrier := tempBarrier \<rparr>))"

subsection \<open>Lookback options\<close>

record lookback_option = sim +
  lookbackType :: string

definition LookbackOption :: "jsobject \<Rightarrow> lookback_option" where
  "LookbackOption p =
     (sim.extend (MonteCarloSimulation p)
        (lookback_option.fields (or_string (strings p ''lookbackType'') ''fixed'')))
     \<lparr> otype := or_string (strings p ''type'') ''call'' \<rparr>"

definition lookback_payoff :: "'a lookback_option_scheme \<Rightarrow> jsnum list \<Rightarrow> jsnum" where
  "lookback_payoff this path =
     (if lookbackType this = ''fixed'' then
        (if otype this = ''call''
         then (let maxPrice = Math_max_spread path in Math_max (maxPrice - K this) (Fin 0))
         else (let minPrice = Math_min_spread path in Math_max (K this - minPrice) (Fin 0)))
      else
        (let finalPrice = final_price path
         in if otype this = ''call''
            then (let minPrice = Math_min_spread path in Math_max (finalPrice - minPrice) (Fin 0))
            else (let maxPrice = Math_max_spread path
                  in Math_max (maxPrice - finalPrice) (Fin 0))))"

definition LookbackOption_calculatePrice ::
  "'a lookback_option_scheme \<Rightarrow> jsnum list list option \<Rightarrow> rng \<Rightarrow>
     error + (pricing_result \<times> rng)" where
  "LookbackOption_calculatePrice this paths_arg g =
     (case paths_or_simulate this paths_arg g of
        Inl e \<Rightarrow> Inl e
      | Inr (ps, g') \<Rightarrow>
          (case present_value this ps (map (lookback_payoff this) ps) of
             Inl e \<Rightarrow> Inl e
           | Inr res \<Rightarrow> Inr (res, g')))"

definition adjustForContinuousMonitoring ::
  "'a lookback_option_scheme \<Rightarrow> pricing_result \<Rightarrow> error + pricing_result" where
  "adjustForContinuousMonitoring this result =
     (let beta = Fin 0.5826;
          h = T this / steps this;
          adjustment = beta * sigma this * Math_sqrt h;
          adjustedPayoffs = map (\<lambda>payoff. payoff * Math_exp adjustment) (payoffs result)
      in case reduce1 (+) adjustedPayoffs of
           Inl e \<Rightarrow> Inl e
         | Inr acc \<Rightarrow>
             (case calculateConfidenceInterval adjustedPayoffs of
                Inl e \<Rightarrow> Inl e
              | Inr ci \<Rightarrow>
                  Inr \<lparr> price = acc / Fin (real (length adjustedPayoffs)),
                        confidence = ci,
                        paths = paths result,
                        payoffs = adjustedPayoffs \<rparr>))"

section \<open>Greeks and risk metrics\<close>

record greeks =
  delta :: jsnum
  gamma :: jsnum
  theta :: jsnum
  vega :: jsnum
  rho :: jsnum

text \<open>
  \<^verbatim>\<open>calculatePrice\<close> returns an object. An arithmetic operator converts an operand
  that is a plain object to a number through its string \<^verbatim>\<open>"[object Object]"\<close>, which
  gives \<^verbatim>\<open>NaN\<close>.
\<close>

definition object_to_number :: "pricing_result \<Rightarrow> jsnum" where
  "object_to_number res = NaN"

text \<open>The object literal \<^verbatim>\<open>{...this, k: v}\<close> for a numeric \<open>v\<close>.\<close>

definition spread_with :: "'a sim_scheme \<Rightarrow> string \<Rightarrow> jsnum \<Rightarrow> jsobject" where
  "spread_with this k v =
     (own_properties this) \<lparr> numbers := (numbers (own_properties this)) (k \<mapsto> v) \<rparr>"

text \<open>\<^verbatim>\<open>s.calculatePrice(s.simulatePaths())\<close> on a \<^verbatim>\<open>MonteCarloSimulation\<close>.\<close>

definition reprice :: "sim \<Rightarrow> rng \<Rightarrow> error + (pricing_result \<times> rng)" where
  "reprice s g =
     (case simulatePaths s g of
        Inl e \<Rightarrow> Inl e
      | Inr (ps, g1) \<Rightarrow> calculatePrice s (Some ps) g1)"

definition bind_result :: "error + 'a \<Rightarrow> ('a \<Rightarrow> error + 'b) \<Rightarrow> error + 'b" where
  "bind_result m f = (case m of Inl e \<Rightarrow> Inl e | Inr x \<Rightarrow> f x)"

text \<open>
  \<open>calculateGreeks\<close>. The call \<^verbatim>\<open>this.calculatePrice(paths)\<close> is dispatched on the class
  of the object; the method it reaches is the first argument. The bumped simulations
  are built by \<^verbatim>\<open>new MonteCarloSimulation\<close> and use the base method.
\<close>

definition calculateGreeks ::
  "('a sim_scheme \<Rightarrow> jsnum list list option \<Rightarrow> rng \<Rightarrow> error + (pricing_result \<times> rng)) \<Rightarrow>
   'a sim_scheme \<Rightarrow> jsnum list list option \<Rightarrow> rng \<Rightarrow> error + (greeks \<times> rng)" where
  "calculateGreeks this_calculatePrice this paths_arg g0 =
     (let h = 0.01 in
      bind_result (this_calculatePrice this paths_arg g0) (\<lambda>(basePrice, g1).
      let spotUp = MonteCarloSimulation (spread_with this ''spot'' (S0 this * Fin (1 + h)));
          spotDown = MonteCarloSimulation (spread_with this ''spot'' (S0 this * Fin (1 - h)))
      in
      bind_result (reprice spotUp g1) (\<lambda>(up1, g2).
      bind_result (reprice spotDown g2) (\<lambda>(down1, g3).
      let delta = (object_to_number up1 - object_to_number down1) / (Fin (2 * h) * S0 this)
      in
      bind_result (reprice spotUp g3) (\<lambda>(up2, g4).
      bind_result (reprice spotDown g4) (\<lambda>(down2, g5).
      let gamma = (object_to_number up2 - Fin 2 * object_to_number basePrice +
                   object_to_number down2) / (Fin (h * h) * S0 this * S0 this);
          thetaSim = MonteCarloSimulation (spread_with this ''maturity'' (T this * Fin (1 - h)))
      in
      bind_result (reprice thetaSim g5) (\<lambda>(thetaPrice, g6).
      let theta = - (object_to_number thetaPrice - object_to_number basePrice) /
                  (Fin h * T this);
          vegaSim = MonteCarloSimulation
                      (spread_with this ''volatility'' (sigma this * Fin (1 + h)))
      in
      bind_result (reprice vegaSim g6) (\<lambda>(vegaPrice, g7).
      let vega = (object_to_number vegaPrice - object_to_number basePrice) /
                 (Fin h * sigma this);
          rhoSim = MonteCarloSimulation
                     (spread_with this ''riskFreeRate'' (r this * Fin (1 + h)))
      in
      bind_result (reprice rhoSim g7) (\<lambda>(rhoPrice, g8).
      let rho = (object_to_number rhoPrice - object_to_number basePrice) / (Fin h * r this)
      in Inr (\<lparr> delta = delta, gamma = gamma, theta = theta, vega = vega, rho = rho \<rparr>,
              g8))))))))))"

record risk_metrics =
  var95 :: jsnum
  sharpeRatio :: jsnum
  sortinoRatio :: jsnum

text \<open>
  \<^verbatim>\<open>xs.sort((a, b) => a - b)\<close> as a stable insertion sort: an element moves behind
  its right neighbour when their difference is positive. On an array with \<^verbatim>\<open>NaN\<close>
  the comparator is inconsistent and the language leaves the order to the
  implementation; this is one permitted order.
\<close>

fun insert_by_difference :: "jsnum \<Rightarrow> jsnum list \<Rightarrow> jsnum list" where
  "insert_by_difference x [] = [x]"
| "insert_by_difference x (y # ys) =
     (if Fin 0 < x - y then y # insert_by_difference x ys else x # y # ys)"

definition sort_by_difference :: "jsnum list \<Rightarrow> jsnum list" where
  "sort_by_difference xs = foldr insert_by_difference xs []"

text \<open>\<^verbatim>\<open>xs[i]\<close>, used as a number.\<close>

definition number_at :: "jsnum list \<Rightarrow> nat \<Rightarrow> jsnum" where
  "number_at xs i = (if i < length xs then xs ! i else NaN)"

definition calculateRiskMetrics :: "'a sim_scheme \<Rightarrow> jsnum list list \<Rightarrow> error + risk_metrics" where
  "calculateRiskMetrics this ps =
     (let prices = map final_price ps;
          returns = map (\<lambda>price. Math_log (price / S0 this)) prices;
          sortedReturns = sort_by_difference returns;
          var95 = - number_at sortedReturns (nat \<lfloor>0.05 * real (length returns)\<rfloor>)
      in case reduce1 (+) returns of
           Inl e \<Rightarrow> Inl e
         | Inr acc \<Rightarrow>
             (let meanReturn = acc / Fin (real (length returns));
                  stdDev = Math_sqrt
                    (foldl (\<lambda>a b. a + Math_pow2 (b - meanReturn)) (Fin 0) returns /
                     (Fin (real (length returns)) - Fin 1));
                  sharpeRatio = (meanReturn - r this) / stdDev;
                  negativeReturns = filter (\<lambda>x. x < Fin 0) returns;
                  downstdDev = Math_sqrt
                    (foldl (\<lambda>a b. a + Math_pow2 b) (Fin 0) negativeReturns /
                     Fin (real (length negativeReturns)));
                  sortinoRatio = (meanReturn - r this) / downstdDev
              in Inr \<lparr> var95 = var95, sharpeRatio = sharpeRatio,
                       sortinoRatio = sortinoRatio \<rparr>))"

section \<open>Sample inputs\<close>

text \<open>A vanilla call simulation with three paths of two steps and both sampling flags set.\<close>

definition sample_sim :: sim where
  "sample_sim =
     \<lparr> S0 = Fin 100, K = Fin 100, sigma = Fin 0.2, r = Fin 0.05, T = Fin 1,
       steps = Fin 2, simulations = Fin 3, dt = Fin 0.5, useAntithetic = True,
       useStratified = True, jumpDiffusion = False, otype = ''call'',
       lambda = NaN, muJ = NaN, sigmaJ = NaN \<rparr>"

text \<open>An up-and-out call with barrier 120, and a path set that stays below it.\<close>

definition sample_barrier :: barrier_option where
  "sample_barrier =
     \<lparr> S0 = Fin 100, K = Fin 100, sigma = Fin 0.2, r = Fin 0.05, T = Fin 1,
       steps = Fin 1, simulations = Fin 1, dt = Fin 1, useAntithetic = True,
       useStratified = True, jumpDiffusion = False, otype = ''call'',
       lambda = NaN, muJ = NaN, sigmaJ = NaN,
       barrierType = ''up-and-out'', barrier = Fin 120 \<rparr>"

text \<open>Constructor arguments of a barrier call with spot and strike 100.\<close>

definition barrier_params :: "string \<Rightarrow> jsnum \<Rightarrow> jsobject" where
  "barrier_params bt b =
     \<lparr> numbers = [''spot'' \<mapsto> Fin 100, ''strike'' \<mapsto> Fin 100, ''volatility'' \<mapsto> Fin 0.2,
                   ''riskFreeRate'' \<mapsto> Fin 0.05, ''maturity'' \<mapsto> Fin 1, ''steps'' \<mapsto> Fin 1,
                   ''simulations'' \<mapsto> Fin 1, ''barrier'' \<mapsto> b],
       booleans = Map.empty,
       strings = [''type'' \<mapsto> ''call'', ''barrierType'' \<mapsto> bt] \<rparr>"

text \<open>Fixed-strike lookback options of a given type, and a pricing result.\<close>

definition sample_lookback :: "string \<Rightarrow> lookback_option" where
  "sample_lookback ty =
     \<lparr> S0 = Fin 100, K = Fin 100, sigma = Fin 0.2, r = Fin 0.05, T = Fin 1,
       steps = Fin 1, simulations = Fin 1, dt = Fin 1, useAntithetic = True,
       useStratified = True, jumpDiffusion = False, otype = ty,
       lambda = NaN, muJ = NaN, sigmaJ = NaN, lookbackType = ''fixed'' \<rparr>"

definition sample_result :: pricing_result where
  "sample_result =
     \<lparr> price = Fin 10, confidence = \<lparr> mean = Fin 10, lower = NaN, upper = NaN \<rparr>,
       paths = [[Fin 100, Fin 119, Fin 110]], payoffs = [Fin 10] \<rparr>"


text \<open>An arithmetic-average Asian call.\<close>

definition sample_asian :: asian_option where
  "sample_asian =
     \<lparr> S0 = Fin 100, K = Fin 100, sigma = Fin 0.2, r = Fin 0.05, T = Fin 1,
       steps = Fin 1, simulations = Fin 1, dt = Fin 1, useAntithetic = True,
       useStratified = True, jumpDiffusion = False, otype = ''call'',
       lambda = NaN, muJ = NaN, sigmaJ = NaN, averageType = ''arithmetic'' \<rparr>"

text \<open>Three paths that differ in their terminal price, average, peak and breach.\<close>

definition sample_paths :: "jsnum list list" where
  "sample_paths = [[Fin 100, Fin 115, Fin 110], [Fin 100, Fin 90, Fin 130],
                   [Fin 100, Fin 95, Fin 90]]"

section \<open>Theorems\<close>

subsection \<open>Cholesky factorisation\<close>

text \<open>
  C5. A zero diagonal entry is signalled: \<open>[[0]]\<close> fails with the error. On the
  symmetric matrix \<open>[[1, 2], [2, 1]]\<close>, which is not positive definite, the second
  diagonal entry of the factor is the square root of \<open>1 - 4\<close>, that is \<^verbatim>\<open>NaN\<close>; the
  check \<^verbatim>\<open>L[i][i] <= 0\<close> is false on it, so \<open>cholesky\<close> signals no failure and returns
  a factor with a \<^verbatim>\<open>NaN\<close> entry.
\<close>

theorem cholesky_nan_not_signalled:
  "cholesky [[Fin 0]] = Inl (Error ''Matrix is not positive definite'') \<and>
   isSymmetric [[Fin 1, Fin 2], [Fin 2, Fin 1]] \<and>
   cholesky [[Fin 1, Fin 2], [Fin 2, Fin 1]] = Inr [[Fin 1, Fin 0], [Fin 2, NaN]]"
  by (simp add: isSymmetric_def cholesky_def cholesky_entry_def entry_def set_entry_def
      Math_abs_def minus_jsnum_def)

subsection \<open>Sampling\<close>

lemma draws_eq:
  "draws f i n g = (map (\<lambda>k. f (i + k) (fst g (snd g + k))) [0..<n], (fst g, snd g + n))"
proof (induction n arbitrary: i g)
  case 0
  show ?case by simp
next
  case (Suc n)
  show ?case
    unfolding draws.simps Suc.IH Math_random_def
    by (simp add: map_upt_Suc del: upt_Suc)
qed

lemma draws_from_0:
  "draws f 0 n g = (map (\<lambda>k. f k (fst g (snd g + k))) [0..<n], (fst g, snd g + n))"
  by (simp add: draws_eq)

lemma array_length_nat: "m < 4294967296 \<Longrightarrow> array_length (Fin (real m)) = Some m"
  by simp

lemma ceil_half: "\<lceil>real m / 2\<rceil> = int ((m + 1) div 2)"
  by linarith

lemma Math_ceil_half: "Math_ceil (Fin (real m / 2)) = Fin (real ((m + 1) div 2))"
proof -
  have "real_of_int \<lceil>real m / 2\<rceil> = real ((m + 1) div 2)"
    by (simp only: ceil_half of_int_of_nat_eq)
  then show ?thesis by simp
qed

lemma slice0_nat: "slice0 xs (Fin (real m)) = take m xs"
  by simp

text \<open>
  C6. For a simulation count \<open>m\<close> that is an array length, \<open>generateRandomNumbers\<close>
  consumes \<open>m_eff\<close> uniform numbers \<open>U 0, ..., U (m_eff - 1)\<close>, where \<open>m_eff\<close> is
  \<open>ceil(m / 2)\<close> with antithetic variates and \<open>m\<close> without. Draw \<open>i\<close> is
  \<open>normalInverse((i + U i) / m_eff)\<close> with stratification and \<open>normalInverse(U i)\<close>
  without. With antithetic variates the draws are followed by their negations and the
  array is cut to \<open>m\<close> entries. In every case the returned array has length \<open>m\<close>.
\<close>

theorem generateRandomNumbers_draws:
  assumes m: "simulations this = Fin (real m)" and bound: "m < 4294967296"
  shows "let m_eff = (if useAntithetic this then (m + 1) div 2 else m);
             U = (\<lambda>i. fst g (snd g + i));
             Z = (\<lambda>i. if useStratified this
                      then normalInverse ((Fin (real i) + Fin (U i)) / Fin (real m_eff))
                      else normalInverse (Fin (U i)));
             zs = (if useAntithetic this
                   then take m (map Z [0..<m_eff] @ map (\<lambda>i. - Z i) [0..<m_eff])
                   else map Z [0..<m_eff])
         in generateRandomNumbers this g = Inr (zs, (fst g, snd g + m_eff)) \<and> length zs = m"
proof -
  have le: "(m + 1) div 2 < 4294967296" using bound by linarith
  have len: "m \<le> 2 * ((m + 1) div 2)" by linarith
  show ?thesis
  proof (cases "useAntithetic this")
    case True
    then show ?thesis
      using le len
      by (simp add: generateRandomNumbers_def m Math_ceil_half array_length_nat draws_from_0
          slice0_nat comp_def Let_def del: array_length.simps slice0.simps Math_ceil.simps)
  next
    case False
    then show ?thesis
      using bound
      by (simp add: generateRandomNumbers_def m array_length_nat draws_from_0 Let_def
          del: array_length.simps slice0.simps)
  qed
qed

theorem generateRandomNumbers_draws_witness:
  "simulations sample_sim = Fin (real 3) \<and> (3::nat) < 4294967296 \<and>
   (\<exists>zs g'. generateRandomNumbers sample_sim (\<lambda>_. 1 / 2, 0) = Inr (zs, g') \<and> length zs = 3)"
  using generateRandomNumbers_draws [of sample_sim 3 "(\<lambda>_. 1 / 2, 0)"]
  by (simp add: sample_sim_def Let_def)

subsection \<open>Path simulation\<close>

lemma generateRandomNumbers_returns:
  assumes "simulations this = Fin (real m)" and "m < 4294967296"
  shows "\<exists>zs. generateRandomNumbers this g =
            Inr (zs, (fst g, snd g + (if useAntithetic this then (m + 1) div 2 else m))) \<and>
          length zs = m"
proof -
  have le: "(m + 1) div 2 < 4294967296" using assms(2) by linarith
  have len: "m \<le> 2 * ((m + 1) div 2)" by linarith
  show ?thesis
  proof (cases "useAntithetic this")
    case True
    then show ?thesis
      using le len
      by (simp add: generateRandomNumbers_def assms(1) Math_ceil_half array_length_nat
          draws_from_0 slice0_nat del: array_length.simps slice0.simps Math_ceil.simps)
  next
    case False
    then show ?thesis
      using assms(2)
      by (simp add: generateRandomNumbers_def assms(1) array_length_nat draws_from_0
          del: array_length.simps slice0.simps)
  qed
qed

lemma jsnum_add_0: "a + Fin 0 = a"
  by (cases a) simp_all

lemma path_step_formula:
  assumes m: "simulations this = Fin (real m)" and bound: "m < 4294967296"
  shows "\<exists>zs J g1.
           generateRandomNumbers this g0 =
             Inr (zs, (fst g0, snd g0 + (if useAntithetic this then (m + 1) div 2 else m))) \<and>
           length zs = m \<and>
           path_step this prev g0 =
             Inr (prev * Math_exp (drift this + diffusion this * first_number zs + J), g1) \<and>
           fst g1 = fst g0 \<and>
           snd g0 + (if useAntithetic this then (m + 1) div 2 else m) \<le> snd g1 \<and>
           (if jumpDiffusion this
            then J = Fin 0 \<or> (\<exists>v. J = muJ this + sigmaJ this * normalInverse (Fin v))
            else J = Fin 0 \<and>
                 snd g1 = snd g0 + (if useAntithetic this then (m + 1) div 2 else m))"
proof -
  let ?e = "if useAntithetic this then (m + 1) div 2 else m"
  obtain zs where zs: "generateRandomNumbers this g0 = Inr (zs, (fst g0, snd g0 + ?e))"
    and len: "length zs = m"
    using generateRandomNumbers_returns [OF m bound, of g0] by blast
  let ?mv = "drift this + diffusion this * first_number zs"
  show ?thesis
  proof (cases "jumpDiffusion this")
    case False
    then have "path_step this prev g0 = Inr (prev * Math_exp (?mv + Fin 0), (fst g0, snd g0 + ?e))"
      by (simp add: path_step_def zs jsnum_add_0)
    with zs len False show ?thesis by fastforce
  next
    case True
    let ?g1 = "(fst g0, snd g0 + ?e)"
    let ?u = "fst g0 (snd g0 + ?e)"
    show ?thesis
    proof (cases "Fin ?u < lambda this * dt this")
      case no: False
      have "path_step this prev g0 = Inr (prev * Math_exp (?mv + Fin 0), (fst g0, Suc (snd g0 + ?e)))"
        using True no by (simp add: path_step_def zs jsnum_add_0 Math_random_def)
      with zs len True show ?thesis by fastforce
    next
      case yes: True
      let ?v = "fst g0 (Suc (snd g0 + ?e))"
      have "path_step this prev g0 =
              Inr (prev * Math_exp (?mv + (muJ this + sigmaJ this * normalInverse (Fin ?v))),
                   (fst g0, Suc (Suc (snd g0 + ?e))))"
        using True yes by (simp add: path_step_def zs Math_random_def Let_def)
      with zs len True show ?thesis by fastforce
    qed
  qed
qed

lemma path_step_returns:
  assumes "simulations this = Fin (real m)" and "m < 4294967296"
  shows "\<exists>p g1. path_step this prev g0 = Inr (p, g1) \<and>
           (\<not> jumpDiffusion this \<longrightarrow>
              g1 = (fst g0, snd g0 + (if useAntithetic this then (m + 1) div 2 else m)))"
proof -
  obtain zs J g1 where
    "path_step this prev g0 =
       Inr (prev * Math_exp (drift this + diffusion this * first_number zs + J), g1)"
    "fst g1 = fst g0"
    "if jumpDiffusion this
     then J = Fin 0 \<or> (\<exists>v. J = muJ this + sigmaJ this * normalInverse (Fin v))
     else J = Fin 0 \<and> snd g1 = snd g0 + (if useAntithetic this then (m + 1) div 2 else m)"
    using path_step_formula [OF assms, of g0 prev] by blast
  then show ?thesis
    by (cases g1) (auto split: if_splits)
qed

lemma path_loop_chain:
  assumes m: "simulations this = Fin (real m)" and bound: "m < 4294967296"
  shows "\<exists>ps g' H. path_loop this n prev g = Inr (ps, g') \<and> length ps = n \<and>
           H 0 = g \<and> H n = g' \<and>
           (\<forall>k<n. path_step this ((prev # ps) ! k) (H k) = Inr (ps ! k, H (Suc k))) \<and>
           (\<not> jumpDiffusion this \<longrightarrow>
              g' = (fst g, snd g + n * (if useAntithetic this then (m + 1) div 2 else m)))"
proof (induction n arbitrary: prev g)
  case 0
  show ?case by (rule exI [of _ "[]"], rule exI [of _ g], rule exI [of _ "\<lambda>_. g"]) simp
next
  case (Suc n)
  let ?e = "if useAntithetic this then (m + 1) div 2 else m"
  obtain p g1 where step: "path_step this prev g = Inr (p, g1)"
    and g1: "\<not> jumpDiffusion this \<longrightarrow> g1 = (fst g, snd g + ?e)"
    using path_step_returns [OF m bound, of prev g] by blast
  obtain ps g' H where rest: "path_loop this n p g1 = Inr (ps, g')" and len: "length ps = n"
    and H0: "H 0 = g1" and Hn: "H n = g'"
    and chain: "\<forall>k<n. path_step this ((p # ps) ! k) (H k) = Inr (ps ! k, H (Suc k))"
    and cnt: "\<not> jumpDiffusion this \<longrightarrow> g' = (fst g1, snd g1 + n * ?e)"
    using Suc.IH [of p g1] by blast
  let ?H = "\<lambda>k. case k of 0 \<Rightarrow> g | Suc j \<Rightarrow> H j"
  have 1: "path_loop this (Suc n) prev g = Inr (p # ps, g')"
    by (simp add: step rest)
  have 2: "\<forall>k<Suc n. path_step this ((prev # p # ps) ! k) (?H k) = Inr ((p # ps) ! k, ?H (Suc k))"
  proof (intro allI impI)
    fix k assume "k < Suc n"
    show "path_step this ((prev # p # ps) ! k) (?H k) = Inr ((p # ps) ! k, ?H (Suc k))"
    proof (cases k)
      case 0
      then show ?thesis by (simp add: step H0)
    next
      case (Suc j)
      with \<open>k < Suc n\<close> have "j < n" by simp
      with chain have "path_step this ((p # ps) ! j) (H j) = Inr (ps ! j, H (Suc j))" by blast
      with Suc show ?thesis by simp
    qed
  qed
  have 3: "\<not> jumpDiffusion this \<longrightarrow> g' = (fst g, snd g + Suc n * ?e)"
    using g1 cnt by (auto simp: algebra_simps)
  show ?case
    apply (rule exI [of _ "p # ps"], rule exI [of _ g'], rule exI [of _ ?H])
    using 1 2 3 len Hn by simp
qed


lemma paths_loop_chain:
  assumes m: "simulations this = Fin (real m)" and bound: "m < 4294967296"
    and n: "steps this = Fin (real n)" and nbound: "n + 1 < 4294967296"
  shows "\<exists>pss g' G. paths_loop this c g = Inr (pss, g') \<and> length pss = c \<and>
           (\<forall>i<c. length (pss ! i) = Suc n \<and> pss ! i ! 0 = S0 this) \<and>
           G 0 0 = g \<and> (\<forall>i<c. G (Suc i) 0 = G i n) \<and> G c 0 = g' \<and>
           (\<forall>i<c. \<forall>k<n. path_step this (pss ! i ! k) (G i k) =
                            Inr (pss ! i ! Suc k, G i (Suc k))) \<and>
           (\<not> jumpDiffusion this \<longrightarrow>
              g' = (fst g, snd g + c * n * (if useAntithetic this then (m + 1) div 2 else m)))"
proof (induction c arbitrary: g)
  case 0
  show ?case
    by (rule exI [of _ "[]"], rule exI [of _ g], rule exI [of _ "\<lambda>_ _. g"]) simp
next
  case (Suc c)
  let ?e = "if useAntithetic this then (m + 1) div 2 else m"
  have alloc: "array_length (steps this + Fin 1) = Some (Suc n)"
  proof -
    have "steps this + Fin 1 = Fin (real (Suc n))" by (simp add: n)
    moreover have "Suc n < 4294967296" using nbound by simp
    ultimately show ?thesis by (simp only: array_length_nat)
  qed
  obtain ps g1 H where path: "path_loop this n (S0 this) g = Inr (ps, g1)"
    and len: "length ps = n" and H0: "H 0 = g" and Hn: "H n = g1"
    and chain: "\<forall>k<n. path_step this ((S0 this # ps) ! k) (H k) = Inr (ps ! k, H (Suc k))"
    and cnt: "\<not> jumpDiffusion this \<longrightarrow> g1 = (fst g, snd g + n * ?e)"
    using path_loop_chain [OF m bound, of n "S0 this" g] by blast
  obtain pss g' G where rest: "paths_loop this c g1 = Inr (pss, g')"
    and plen: "length pss = c"
    and shape: "\<forall>i<c. length (pss ! i) = Suc n \<and> pss ! i ! 0 = S0 this"
    and G0: "G 0 0 = g1" and Glink: "\<forall>i<c. G (Suc i) 0 = G i n" and Gc: "G c 0 = g'"
    and Gchain: "\<forall>i<c. \<forall>k<n. path_step this (pss ! i ! k) (G i k) =
                                 Inr (pss ! i ! Suc k, G i (Suc k))"
    and Gcnt: "\<not> jumpDiffusion this \<longrightarrow> g' = (fst g1, snd g1 + c * n * ?e)"
    using Suc.IH [of g1] by blast
  let ?G = "\<lambda>i k. case i of 0 \<Rightarrow> H k | Suc j \<Rightarrow> G j k"
  let ?pss = "(S0 this # ps) # pss"
  have 1: "paths_loop this (Suc c) g = Inr (?pss, g')"
    by (simp add: alloc path rest)
  have 2: "\<forall>i<Suc c. length (?pss ! i) = Suc n \<and> ?pss ! i ! 0 = S0 this"
  proof (intro allI impI)
    fix i assume "i < Suc c"
    then show "length (?pss ! i) = Suc n \<and> ?pss ! i ! 0 = S0 this"
      using shape len by (cases i) simp_all
  qed
  have 3: "\<forall>i<Suc c. ?G (Suc i) 0 = ?G i n"
  proof (intro allI impI)
    fix i assume "i < Suc c"
    then show "?G (Suc i) 0 = ?G i n"
      using Glink G0 Hn by (cases i) simp_all
  qed
  have 4: "\<forall>i<Suc c. \<forall>k<n. path_step this (?pss ! i ! k) (?G i k) =
                               Inr (?pss ! i ! Suc k, ?G i (Suc k))"
  proof (intro allI impI)
    fix i k assume "i < Suc c" and "k < n"
    then show "path_step this (?pss ! i ! k) (?G i k) = Inr (?pss ! i ! Suc k, ?G i (Suc k))"
      using chain Gchain by (cases i) simp_all
  qed
  have 5: "\<not> jumpDiffusion this \<longrightarrow> g' = (fst g, snd g + Suc c * n * ?e)"
    using cnt Gcnt by (auto simp: algebra_simps)
  show ?case
    apply (rule exI [of _ ?pss], rule exI [of _ g'], rule exI [of _ ?G])
    using 1 2 3 4 5 plen H0 Gc by simp
qed

text \<open>
  What holds of every simulation whose counts \<open>m\<close> and \<open>n\<close> are array lengths: one
  step of a path invokes \<open>generateRandomNumbers\<close> on the current random source, which
  consumes its own \<open>m_eff\<close> uniform numbers, and multiplies the previous price by
  \<open>exp((r - 0.5 * sigma * sigma) * dt + sigma * sqrt(dt) * Z + J)\<close>, where \<open>Z\<close> is the
  first entry of the array that invocation returns and \<open>J\<close> is zero or, with jump
  diffusion, possibly a jump \<open>muJ + sigmaJ * normalInverse(v)\<close>. \<open>simulatePaths\<close> returns
  \<open>m\<close> paths of \<open>n + 1\<close> prices that start at \<open>S0\<close>; they arise from \<open>m * n\<close> such steps,
  each run on the random source \<open>G i k\<close> that the step before it left behind. Without
  jump diffusion the whole call consumes \<open>m * n * m_eff\<close> uniform numbers.
\<close>

lemma simulatePaths_step:
  assumes m: "simulations this = Fin (real m)" and bound: "m < 4294967296"
    and n: "steps this = Fin (real n)" and nbound: "n + 1 < 4294967296"
  shows "let m_eff = (if useAntithetic this then (m + 1) div 2 else m) in
         (\<forall>prev g0. \<exists>zs J g1.
            generateRandomNumbers this g0 = Inr (zs, (fst g0, snd g0 + m_eff)) \<and>
            length zs = m \<and>
            path_step this prev g0 =
              Inr (prev * Math_exp ((r this - Fin 0.5 * sigma this * sigma this) * dt this +
                                    sigma this * Math_sqrt (dt this) * first_number zs + J), g1) \<and>
            fst g1 = fst g0 \<and> snd g0 + m_eff \<le> snd g1 \<and>
            (if jumpDiffusion this
             then J = Fin 0 \<or> (\<exists>v. J = muJ this + sigmaJ this * normalInverse (Fin v))
             else J = Fin 0 \<and> snd g1 = snd g0 + m_eff)) \<and>
         (\<exists>pss g' G.
            simulatePaths this g = Inr (pss, g') \<and> length pss = m \<and>
            (\<forall>i<m. length (pss ! i) = Suc n \<and> pss ! i ! 0 = S0 this) \<and>
            G 0 0 = g \<and> (\<forall>i<m. G (Suc i) 0 = G i n) \<and> G m 0 = g' \<and>
            (\<forall>i<m. \<forall>k<n. path_step this (pss ! i ! k) (G i k) =
                             Inr (pss ! i ! Suc k, G i (Suc k))) \<and>
            (\<not> jumpDiffusion this \<longrightarrow> g' = (fst g, snd g + m * n * m_eff)))"
proof -
  have A: "simulatePaths this g = paths_loop this m g"
    using bound by (simp only: simulatePaths_def m array_length_nat option.case)
  show ?thesis
    unfolding Let_def A
    using path_step_formula [OF m bound] paths_loop_chain [OF m bound n nbound, of m g]
    by (simp only: drift_def diffusion_def) blast
qed

lemma normalInverse_lower_half:
  "normalInverse (Fin (1 / 4)) < Fin 0" "normalInverse (Fin (99 / 200)) < Fin 0"
  by (simp_all add: normalInverse_def Let_def minus_jsnum_def)

lemma sample_batch:
  "generateRandomNumbers sample_sim g =
     Inr ([normalInverse (Fin (fst g (snd g) / 2)),
           normalInverse (Fin ((1 + fst g (Suc (snd g))) / 2)),
           - normalInverse (Fin (fst g (snd g) / 2))],
          (fst g, snd g + 2))"
  by (simp add: generateRandomNumbers_def sample_sim_def eval_nat_numeral Math_random_def)

lemma sample_step:
  "path_step sample_sim prev g =
     Inr (prev * Math_exp (drift sample_sim +
                           diffusion sample_sim * normalInverse (Fin (fst g (snd g) / 2))),
          (fst g, snd g + 2))"
  by (simp add: path_step_def sample_batch first_number_def)
     (simp add: sample_sim_def)

text \<open>
  C4. The number a step uses is not a standard normal draw. On the sample simulation
  (three simulations, two steps, both sampling flags set, so two effective draws) every
  invocation of \<open>generateRandomNumbers\<close> returns the stratified batch
  \<open>[normalInverse(U0 / 2), normalInverse((1 + U1) / 2), -normalInverse(U0 / 2)]\<close>, and
  the step, which reads entry 0 only, multiplies the previous price by
  \<open>exp(drift + diffusion * normalInverse(U0 / 2))\<close>: its draw always comes from the lowest
  stratum, the lower half of the distribution. It is negative when \<^verbatim>\<open>Math.random()\<close>
  returns 0.5, and still negative when it returns 0.99. With \<^verbatim>\<open>Math.random()\<close>
  constantly 0.5, all steps of all three paths use the same negative number
  \<open>normalInverse(1 / 4)\<close>, where the median draw of a standard normal is 0.
\<close>

theorem simulatePaths_draw_from_lowest_stratum:
  "generateRandomNumbers sample_sim g =
     Inr ([normalInverse (Fin (fst g (snd g) / 2)),
           normalInverse (Fin ((1 + fst g (Suc (snd g))) / 2)),
           - normalInverse (Fin (fst g (snd g) / 2))],
          (fst g, snd g + 2)) \<and>
   path_step sample_sim prev g =
     Inr (prev * Math_exp (drift sample_sim +
                           diffusion sample_sim * normalInverse (Fin (fst g (snd g) / 2))),
          (fst g, snd g + 2)) \<and>
   normalInverse (Fin (1 / 2 / 2)) < Fin 0 \<and>
   normalInverse (Fin (99 / 100 / 2)) < Fin 0 \<and>
   simulatePaths sample_sim (\<lambda>_. 1 / 2, 0) =
     Inr (replicate 3
            [Fin 100,
             Fin 100 * Math_exp (drift sample_sim +
                                 diffusion sample_sim * normalInverse (Fin (1 / 4))),
             Fin 100 * Math_exp (drift sample_sim +
                                 diffusion sample_sim * normalInverse (Fin (1 / 4))) *
               Math_exp (drift sample_sim +
                         diffusion sample_sim * normalInverse (Fin (1 / 4)))],
          (\<lambda>_. 1 / 2, 12))"
proof -
  have s: "simulations sample_sim = Fin 3" "steps sample_sim = Fin 2" "S0 sample_sim = Fin 100"
    by (simp_all add: sample_sim_def)
  have paths: "simulatePaths sample_sim (\<lambda>_. 1 / 2, 0) =
     Inr (replicate 3
            [Fin 100,
             Fin 100 * Math_exp (drift sample_sim +
                                 diffusion sample_sim * normalInverse (Fin (1 / 4))),
             Fin 100 * Math_exp (drift sample_sim +
                                 diffusion sample_sim * normalInverse (Fin (1 / 4))) *
               Math_exp (drift sample_sim +
                         diffusion sample_sim * normalInverse (Fin (1 / 4)))],
          (\<lambda>_. 1 / 2, 12))"
    by (simp add: simulatePaths_def s eval_nat_numeral sample_step)
  have neg: "normalInverse (Fin (1 / 2 / 2)) < Fin 0" "normalInverse (Fin (99 / 100 / 2)) < Fin 0"
    using normalInverse_lower_half by simp_all
  from sample_batch [of g] sample_step [of prev g] neg paths show ?thesis
    by (intro conjI)
qed

subsection \<open>Price, payoffs and confidence interval\<close>

lemma times_eq_Fin:
  assumes "a * b = Fin q"
  obtains x y where "a = Fin x" and "b = Fin y" and "q = x * y"
  using assms by (cases a; cases b) (auto split: if_splits)

lemma foldl_plus_Fin: "foldl (+) (Fin a) (map Fin xs) = Fin (a + sum_list xs)"
  by (induction xs arbitrary: a) (simp_all add: add.assoc)

lemma reduce1_plus_Fin:
  "xs \<noteq> [] \<Longrightarrow> reduce1 (+) (map Fin xs) = Inr (Fin (sum_list xs))"
  by (cases xs) (simp_all add: foldl_plus_Fin)

lemma reduce1_Inr_nonempty: "reduce1 f xs = Inr y \<Longrightarrow> xs \<noteq> []"
  by (cases xs) simp_all

lemma reduce1_nonempty: "xs \<noteq> [] \<Longrightarrow> \<exists>y. reduce1 f xs = Inr y"
  by (cases xs) simp_all

lemma confidence_mean_Fin:
  assumes "qs \<noteq> []" and "calculateConfidenceInterval (map Fin qs) = Inr ci"
  shows "mean ci = Fin (sum_list qs / real (length qs))"
  using assms
  by (auto simp: calculateConfidenceInterval_def reduce1_plus_Fin Let_def)

lemma calculateConfidenceInterval_returns:
  "xs \<noteq> [] \<Longrightarrow> \<exists>ci. calculateConfidenceInterval xs = Inr ci"
  by (cases xs) (simp_all add: calculateConfidenceInterval_def Let_def)

lemma present_value_returns:
  "raw \<noteq> [] \<Longrightarrow> \<exists>res. present_value this ps raw = Inr res"
proof -
  assume ne: "raw \<noteq> []"
  then obtain acc where acc: "reduce1 (+) raw = Inr acc"
    using reduce1_nonempty by blast
  from ne have "map (\<lambda>p. p * Math_exp (- r this * T this)) raw \<noteq> []" by simp
  then obtain ci where
    "calculateConfidenceInterval (map (\<lambda>p. p * Math_exp (- r this * T this)) raw) = Inr ci"
    using calculateConfidenceInterval_returns by blast
  then show ?thesis by (simp add: present_value_def acc Let_def)
qed

lemma scaled_list_Fin:
  assumes "map (\<lambda>p. p * c) raw = map Fin qs" and "raw \<noteq> []"
  obtains d xs where "c = Fin d" and "raw = map Fin xs" and "qs = map (\<lambda>x. x * d) xs"
proof -
  from assms(2) obtain p0 rest where raw: "raw = p0 # rest" by (cases raw) auto
  with assms(1) obtain q0 where "p0 * c = Fin q0" by (cases qs) auto
  then obtain d where d: "c = Fin d" by (rule times_eq_Fin)
  have "\<exists>xs. raw' = map Fin xs \<and> qs' = map (\<lambda>x. x * d) xs"
    if "map (\<lambda>p. p * c) raw' = map Fin qs'" for raw' qs'
    using that
  proof (induction raw' arbitrary: qs')
    case Nil
    then show ?case by simp
  next
    case (Cons p raw')
    then obtain q qs2 where qs': "qs' = q # qs2" and pq: "p * c = Fin q"
      and rest: "map (\<lambda>p. p * c) raw' = map Fin qs2"
      by (cases qs') auto
    from pq obtain x y where "p = Fin x" "c = Fin y" "q = x * y" by (rule times_eq_Fin)
    with d have x: "p = Fin x" "q = x * d" by simp_all
    from Cons.IH [OF rest] obtain xs where "raw' = map Fin xs" "qs2 = map (\<lambda>x. x * d) xs"
      by blast
    with x qs' have "p # raw' = map Fin (x # xs) \<and> qs' = map (\<lambda>x. x * d) (x # xs)" by simp
    then show ?case by (rule exI [of _ "x # xs"])
  qed
  from this [OF assms(1)] d that show thesis by blast
qed

lemma present_value_mean:
  assumes res: "present_value this ps raw = Inr res" and fin: "payoffs res = map Fin qs"
  shows "price res = Fin (sum_list qs / real (length qs)) \<and> mean (confidence res) = price res"
proof -
  let ?c = "Math_exp (- r this * T this)"
  obtain acc where acc: "reduce1 (+) raw = Inr acc"
    using res by (auto simp: present_value_def split: sum.splits)
  then have ne: "raw \<noteq> []" by (rule reduce1_Inr_nonempty)
  obtain ci where ci: "calculateConfidenceInterval (map (\<lambda>p. p * ?c) raw) = Inr ci"
    using res acc by (auto simp: present_value_def Let_def split: sum.splits)
  have resv: "res = \<lparr> price = acc / Fin (real (length raw)) * ?c, confidence = ci,
                       paths = ps, payoffs = map (\<lambda>p. p * ?c) raw \<rparr>"
    using res acc ci by (simp add: present_value_def Let_def)
  then have "map (\<lambda>p. p * ?c) raw = map Fin qs" using fin by simp
  then obtain d xs where d: "?c = Fin d" and raw: "raw = map Fin xs"
    and qs: "qs = map (\<lambda>x. x * d) xs"
    using ne by (rule scaled_list_Fin)
  from ne raw have xs: "xs \<noteq> []" by auto
  have accv: "acc = Fin (sum_list xs)"
    using acc raw xs by (simp add: reduce1_plus_Fin)
  have sumq: "sum_list qs = sum_list xs * d"
    unfolding qs by (simp add: sum_list_mult_const)
  have len: "length qs = length xs" unfolding qs by simp
  have p: "price res = Fin (sum_list qs / real (length qs))"
    using xs by (simp add: resv accv d raw sumq len)
  have "map (\<lambda>p. p * ?c) raw = map Fin qs" unfolding raw qs d by simp
  with ci have "calculateConfidenceInterval (map Fin qs) = Inr ci" by simp
  moreover have "qs \<noteq> []" using xs len by auto
  ultimately have "mean ci = Fin (sum_list qs / real (length qs))"
    using confidence_mean_Fin by blast
  with p show ?thesis by (simp add: resv)
qed


lemma map_throwing_returns:
  assumes "\<forall>x \<in> set xs. \<exists>y. f x = Inr y"
  shows "\<exists>ys. map_throwing f xs = Inr ys \<and> length ys = length xs"
  using assms
proof (induction xs)
  case Nil
  show ?case by simp
next
  case (Cons x xs)
  then obtain y where y: "f x = Inr y" by auto
  from Cons obtain ys where "map_throwing f xs = Inr ys" "length ys = length xs" by auto
  with y show ?case by simp
qed

lemma asian_payoff_returns: "path \<noteq> [] \<Longrightarrow> \<exists>y. asian_payoff this path = Inr y"
  by (cases path) (simp_all add: asian_payoff_def)

text \<open>
  C10. On a non-empty path set each of the four \<open>calculatePrice\<close> methods returns a result
  (for the Asian one, provided no path is empty) that carries the path set and one
  payoff per path. Whenever the returned discounted payoffs are finite numbers \<open>qs\<close>, the
  price is their arithmetic mean as a real number, and the mean of the confidence
  interval is the same number.
\<close>

theorem price_is_mean_of_payoffs:
  assumes "ps \<noteq> []"
  shows "let ok = (\<lambda>res. paths res = ps \<and> length (payoffs res) = length ps \<and>
                     (\<forall>qs. payoffs res = map Fin qs \<longrightarrow>
                        price res = Fin (sum_list qs / real (length qs)) \<and>
                        mean (confidence res) = price res))
         in (\<exists>res. calculatePrice vanilla (Some ps) g = Inr (res, g) \<and> ok res) \<and>
            ((\<forall>path \<in> set ps. path \<noteq> []) \<longrightarrow>
               (\<exists>res. AsianOption_calculatePrice asian (Some ps) g = Inr (res, g) \<and> ok res)) \<and>
            (\<exists>res. BarrierOption_calculatePrice barr (Some ps) g = Inr (res, g) \<and> ok res) \<and>
            (\<exists>res. LookbackOption_calculatePrice lookback (Some ps) g = Inr (res, g) \<and> ok res)"
proof -
  have main: "\<exists>res. present_value this ps raw = Inr res \<and> paths res = ps \<and>
                 length (payoffs res) = length ps \<and>
                 (\<forall>qs. payoffs res = map Fin qs \<longrightarrow>
                    price res = Fin (sum_list qs / real (length qs)) \<and>
                    mean (confidence res) = price res)"
    if "length raw = length ps" for this :: "'z sim_scheme" and raw
  proof -
    from that assms have "raw \<noteq> []" by auto
    then obtain res where res: "present_value this ps raw = Inr res"
      using present_value_returns by blast
    then have "paths res = ps" "payoffs res = map (\<lambda>p. p * Math_exp (- r this * T this)) raw"
      by (auto simp: present_value_def Let_def split: sum.splits)
    with that res present_value_mean [OF res] show ?thesis by auto
  qed
  have v: "\<exists>res. calculatePrice vanilla (Some ps) g = Inr (res, g) \<and> paths res = ps \<and>
             length (payoffs res) = length ps \<and>
             (\<forall>qs. payoffs res = map Fin qs \<longrightarrow>
                price res = Fin (sum_list qs / real (length qs)) \<and>
                mean (confidence res) = price res)"
    using main [of "map (\<lambda>path. vanilla_payoff vanilla (final_price path)) ps" vanilla]
    by (auto simp: calculatePrice_def paths_or_simulate_def)
  have b: "\<exists>res. BarrierOption_calculatePrice barr (Some ps) g = Inr (res, g) \<and> paths res = ps \<and>
             length (payoffs res) = length ps \<and>
             (\<forall>qs. payoffs res = map Fin qs \<longrightarrow>
                price res = Fin (sum_list qs / real (length qs)) \<and>
                mean (confidence res) = price res)"
    using main [of "map (barrier_payoff barr) ps" barr]
    by (auto simp: BarrierOption_calculatePrice_def paths_or_simulate_def)
  have l: "\<exists>res. LookbackOption_calculatePrice lookback (Some ps) g = Inr (res, g) \<and>
             paths res = ps \<and> length (payoffs res) = length ps \<and>
             (\<forall>qs. payoffs res = map Fin qs \<longrightarrow>
                price res = Fin (sum_list qs / real (length qs)) \<and>
                mean (confidence res) = price res)"
    using main [of "map (lookback_payoff lookback) ps" lookback]
    by (auto simp: LookbackOption_calculatePrice_def paths_or_simulate_def)
  have a: "\<exists>res. AsianOption_calculatePrice asian (Some ps) g = Inr (res, g) \<and> paths res = ps \<and>
             length (payoffs res) = length ps \<and>
             (\<forall>qs. payoffs res = map Fin qs \<longrightarrow>
                price res = Fin (sum_list qs / real (length qs)) \<and>
                mean (confidence res) = price res)"
    if "\<forall>path \<in> set ps. path \<noteq> []"
  proof -
    from that have "\<forall>path \<in> set ps. \<exists>y. asian_payoff asian path = Inr y"
      using asian_payoff_returns by blast
    then obtain raw where raw: "map_throwing (asian_payoff asian) ps = Inr raw"
      and len: "length raw = length ps"
      using map_throwing_returns by blast
    from main [OF len, of asian] show ?thesis
      by (auto simp: AsianOption_calculatePrice_def paths_or_simulate_def raw)
  qed
  from v a b l show ?thesis unfolding Let_def by blast
qed

theorem price_is_mean_of_payoffs_witness:
  "sample_paths \<noteq> [] \<and> list_all (\<lambda>path. path \<noteq> []) sample_paths \<and>
   (\<exists>res. calculatePrice sample_sim (Some sample_paths) (\<lambda>_. 1 / 2, 0) =
            Inr (res, (\<lambda>_. 1 / 2, 0)) \<and>
          payoffs res = map Fin [10 * exp (- (1 / 20)), 30 * exp (- (1 / 20)), 0] \<and>
          price res = Fin ((10 * exp (- (1 / 20)) + 30 * exp (- (1 / 20)) + 0) / 3) \<and>
          mean (confidence res) = price res) \<and>
   (\<exists>res. AsianOption_calculatePrice sample_asian (Some sample_paths) (\<lambda>_. 1 / 2, 0) =
            Inr (res, (\<lambda>_. 1 / 2, 0)) \<and>
          payoffs res = map Fin [25 / 3 * exp (- (1 / 20)), 20 / 3 * exp (- (1 / 20)), 0] \<and>
          price res = Fin ((25 / 3 * exp (- (1 / 20)) + 20 / 3 * exp (- (1 / 20)) + 0) / 3) \<and>
          mean (confidence res) = price res) \<and>
   (\<exists>res. BarrierOption_calculatePrice sample_barrier (Some sample_paths) (\<lambda>_. 1 / 2, 0) =
            Inr (res, (\<lambda>_. 1 / 2, 0)) \<and>
          payoffs res = map Fin [10 * exp (- (1 / 20)), 0, 0] \<and>
          price res = Fin ((10 * exp (- (1 / 20)) + 0 + 0) / 3) \<and>
          mean (confidence res) = price res) \<and>
   (\<exists>res. LookbackOption_calculatePrice (sample_lookback ''call'') (Some sample_paths)
            (\<lambda>_. 1 / 2, 0) = Inr (res, (\<lambda>_. 1 / 2, 0)) \<and>
          payoffs res = map Fin [15 * exp (- (1 / 20)), 30 * exp (- (1 / 20)), 0] \<and>
          price res = Fin ((15 * exp (- (1 / 20)) + 30 * exp (- (1 / 20)) + 0) / 3) \<and>
          mean (confidence res) = price res)"
proof -
  let ?ps = "sample_paths"
  let ?g = "(\<lambda>_::nat. 1 / 2 :: real, 0 :: nat)"
  let ?ok = "\<lambda>res. \<forall>qs. payoffs res = map Fin qs \<longrightarrow>
              price res = Fin (sum_list qs / real (length qs)) \<and>
              mean (confidence res) = price res"
  have ne: "?ps \<noteq> []" by (simp add: sample_paths_def)
  have nonempty: "\<forall>path \<in> set ?ps. path \<noteq> []" by (simp add: sample_paths_def)
  note t = price_is_mean_of_payoffs
             [OF ne, of sample_sim ?g sample_asian sample_barrier "sample_lookback ''call''",
              unfolded Let_def]
  from t obtain rv where v1: "calculatePrice sample_sim (Some ?ps) ?g = Inr (rv, ?g)"
    and v2: "?ok rv"
    by blast
  from t nonempty obtain ra where
    a1: "AsianOption_calculatePrice sample_asian (Some ?ps) ?g = Inr (ra, ?g)" and a2: "?ok ra"
    by blast
  from t obtain rb where
    b1: "BarrierOption_calculatePrice sample_barrier (Some ?ps) ?g = Inr (rb, ?g)"
    and b2: "?ok rb"
    by blast
  from t obtain rl where
    l1: "LookbackOption_calculatePrice (sample_lookback ''call'') (Some ?ps) ?g = Inr (rl, ?g)"
    and l2: "?ok rl"
    by blast
  have v3: "payoffs rv = map Fin [10 * exp (- (1 / 20)), 30 * exp (- (1 / 20)), 0]"
    using v1
    by (auto simp: calculatePrice_def paths_or_simulate_def present_value_def
        calculateConfidenceInterval_def vanilla_payoff_def final_price_def Math_max_def
        sample_sim_def sample_paths_def Let_def minus_jsnum_def split: sum.splits)
  have a3: "payoffs ra = map Fin [25 / 3 * exp (- (1 / 20)), 20 / 3 * exp (- (1 / 20)), 0]"
    using a1
    by (auto simp: AsianOption_calculatePrice_def paths_or_simulate_def present_value_def
        calculateConfidenceInterval_def asian_payoff_def Math_max_def
        sample_asian_def sample_paths_def Let_def minus_jsnum_def split: sum.splits)
  have b3: "payoffs rb = map Fin [10 * exp (- (1 / 20)), 0, 0]"
    using b1
    by (auto simp: BarrierOption_calculatePrice_def paths_or_simulate_def present_value_def
        calculateConfidenceInterval_def barrier_payoff_def checkBarrierHit_def
        vanilla_payoff_def final_price_def Math_max_def startsWith_def endsWith_def suffix_def
        sample_barrier_def sample_paths_def Let_def minus_jsnum_def split: sum.splits)
  have l3: "payoffs rl = map Fin [15 * exp (- (1 / 20)), 30 * exp (- (1 / 20)), 0]"
    using l1
    by (auto simp: LookbackOption_calculatePrice_def paths_or_simulate_def present_value_def
        calculateConfidenceInterval_def lookback_payoff_def Math_max_def
        Math_max_spread_def sample_lookback_def sample_paths_def Let_def minus_jsnum_def
        split: sum.splits)
  from v2 [rule_format, OF v3]
  have v4: "price rv = Fin ((10 * exp (- (1 / 20)) + 30 * exp (- (1 / 20)) + 0) / 3) \<and>
            mean (confidence rv) = price rv"
    by simp
  from a2 [rule_format, OF a3]
  have a4: "price ra = Fin ((25 / 3 * exp (- (1 / 20)) + 20 / 3 * exp (- (1 / 20)) + 0) / 3) \<and>
            mean (confidence ra) = price ra"
    by simp
  from b2 [rule_format, OF b3]
  have b4: "price rb = Fin ((10 * exp (- (1 / 20)) + 0 + 0) / 3) \<and>
            mean (confidence rb) = price rb"
    by simp
  from l2 [rule_format, OF l3]
  have l4: "price rl = Fin ((15 * exp (- (1 / 20)) + 30 * exp (- (1 / 20)) + 0) / 3) \<and>
            mean (confidence rl) = price rl"
    by simp
  have all: "list_all (\<lambda>path. path \<noteq> []) sample_paths" by (simp add: sample_paths_def)
  show ?thesis
    using ne all v1 v3 v4 a1 a3 a4 b1 b3 b4 l1 l3 l4 by (simp only:) simp
qed

subsection \<open>Barrier options\<close>

lemma present_value_payoffs:
  "raw \<noteq> [] \<Longrightarrow> \<exists>res. present_value this ps raw = Inr res \<and> paths res = ps \<and>
      payoffs res = map (\<lambda>p. p * Math_exp (- r this * T this)) raw"
proof -
  assume "raw \<noteq> []"
  then obtain res where res: "present_value this ps raw = Inr res"
    using present_value_returns by blast
  then have "paths res = ps \<and> payoffs res = map (\<lambda>p. p * Math_exp (- r this * T this)) raw"
    by (auto simp: present_value_def Let_def split: sum.splits)
  with res show ?thesis by blast
qed

lemma list_ex_set: "list_ex P xs = (\<exists>x \<in> set xs. P x)"
  by (simp add: list_ex_iff)

text \<open>
  C7. \<open>checkBarrierHit\<close> scans every price of the path: an up barrier is breached when
  some price is \<open>\<ge>\<close> the barrier, any other barrier when some price is \<open>\<le>\<close> it. The
  payoff of a path is, for an out option, the vanilla payoff \<open>max(S_T - K, 0)\<close> (call) or
  \<open>max(K - S_T, 0)\<close> (put) when no breach occurred and zero when one did, and for an in
  option the vanilla payoff when a breach occurred and zero when none did.
  \<open>calculatePrice\<close> returns these payoffs, discounted, one per path.
\<close>

theorem barrier_breach_payoff:
  assumes "ps \<noteq> []"
  shows "let up = startsWith (barrierType this) ''up'';
             out = endsWith (barrierType this) ''out'';
             breach = (\<lambda>path. if up then \<exists>price \<in> set path. price \<ge> barrier this
                              else \<exists>price \<in> set path. price \<le> barrier this);
             vanilla = (\<lambda>path. if otype this = ''call''
                               then Math_max (final_price path - K this) (Fin 0)
                               else Math_max (K this - final_price path) (Fin 0));
             payoff = (\<lambda>path. if out then (if breach path then Fin 0 else vanilla path)
                              else (if breach path then vanilla path else Fin 0))
         in (\<forall>path. checkBarrierHit this path = breach path) \<and>
            (\<forall>path. barrier_payoff this path = payoff path) \<and>
            (\<exists>res. BarrierOption_calculatePrice this (Some ps) g = Inr (res, g) \<and>
                   payoffs res = map (\<lambda>path. payoff path * Math_exp (- r this * T this)) ps)"
proof -
  have hit: "checkBarrierHit this path =
               (if startsWith (barrierType this) ''up''
                then \<exists>price \<in> set path. price \<ge> barrier this
                else \<exists>price \<in> set path. price \<le> barrier this)" for path
    by (simp add: checkBarrierHit_def list_ex_set)
  have pay: "barrier_payoff this path =
               (if endsWith (barrierType this) ''out''
                then (if checkBarrierHit this path then Fin 0
                      else vanilla_payoff this (final_price path))
                else (if checkBarrierHit this path then vanilla_payoff this (final_price path)
                      else Fin 0))" for path
    by (simp add: barrier_payoff_def Let_def)
  from assms have "map (barrier_payoff this) ps \<noteq> []" by simp
  from present_value_payoffs [OF this, of this ps]
  obtain res where "present_value this ps (map (barrier_payoff this) ps) = Inr res"
    and "payoffs res =
           map (\<lambda>p. p * Math_exp (- r this * T this)) (map (barrier_payoff this) ps)"
    by blast
  then have "BarrierOption_calculatePrice this (Some ps) g = Inr (res, g) \<and>
             payoffs res = map (\<lambda>path. barrier_payoff this path * Math_exp (- r this * T this)) ps"
    by (simp add: BarrierOption_calculatePrice_def paths_or_simulate_def comp_def)
  then show ?thesis
    unfolding Let_def by (simp only: pay hit vanilla_payoff_def) blast
qed

theorem barrier_breach_payoff_witness:
  "[[Fin 100, Fin 119, Fin 110]] \<noteq> [] \<and>
   checkBarrierHit sample_barrier [Fin 100, Fin 119, Fin 110] = False \<and>
   checkBarrierHit sample_barrier [Fin 100, Fin 121, Fin 110] = True \<and>
   (\<exists>res. BarrierOption_calculatePrice sample_barrier (Some [[Fin 100, Fin 119, Fin 110]])
            (\<lambda>_. 1 / 2, 0) = Inr (res, (\<lambda>_. 1 / 2, 0)) \<and>
          payoffs res = [Fin (10 * exp (- (1 / 20)))])"
  using barrier_breach_payoff [of "[[Fin 100, Fin 119, Fin 110]]" sample_barrier "(\<lambda>_. 1 / 2, 0)"]
  by (simp add: Let_def sample_barrier_def startsWith_def endsWith_def final_price_def
      Math_max_def minus_jsnum_def suffix_def)


text \<open>
  A barrier of 0 is falsy, so the constructor replaces it by 1.2 times the strike before
  it validates: a down barrier of 0, strictly below the spot 100, is rejected, and an up
  barrier of 0, below the spot, is accepted.
\<close>

theorem BarrierOption_zero_barrier_counterexample:
  "BarrierOption (barrier_params ''down-and-out'' (Fin 0)) =
     Inl (Error ''Down barrier must be below spot price'') \<and>
   Fin 0 < Fin 100 \<and>
   (\<exists>this. BarrierOption (barrier_params ''up-and-out'' (Fin 0)) = Inr this \<and>
           barrier this = Fin 120) \<and>
   Fin 0 \<le> Fin 100"
  by (simp add: BarrierOption_def barrier_params_def MonteCarloSimulation_def
      number_property_def with_default_def or_string_def or_number_def startsWith_def
      sim.defs barrier_option.defs Let_def)

lemma not_le_if_less: "(a :: jsnum) < b \<Longrightarrow> \<not> b \<le> a"
  by (cases a; cases b) simp_all

lemma up_not_down: "startsWith s ''up'' \<Longrightarrow> \<not> startsWith s ''down''"
  by (auto simp: startsWith_def prefix_def)

text \<open>
  C8. When the supplied barrier is a number other than 0 and \<^verbatim>\<open>NaN\<close>: an up barrier at
  or below the spot is rejected with the error \<open>Up barrier must be above spot price\<close>, a
  down barrier at or above the spot with \<open>Down barrier must be below spot price\<close>, and
  an up barrier strictly above the spot or a down barrier strictly below it is accepted
  and kept as the barrier of the option.
\<close>

theorem BarrierOption_validation:
  assumes b: "numbers p ''barrier'' = Some b" and nz: "b \<noteq> Fin 0" and nn: "b \<noteq> NaN"
  shows "let spot = number_property p ''spot'';
             bt = or_string (strings p ''barrierType'') ''up-and-out''
         in (startsWith bt ''up'' \<and> b \<le> spot \<longrightarrow>
               BarrierOption p = Inl (Error ''Up barrier must be above spot price'')) \<and>
            (startsWith bt ''down'' \<and> b \<ge> spot \<longrightarrow>
               BarrierOption p = Inl (Error ''Down barrier must be below spot price'')) \<and>
            (startsWith bt ''up'' \<and> spot < b \<or> startsWith bt ''down'' \<and> b < spot \<longrightarrow>
               (\<exists>this. BarrierOption p = Inr this \<and> barrier this = b \<and> barrierType this = bt \<and>
                       S0 this = spot))"
proof -
  have eff: "or_number (numbers p ''barrier'') d = b" for d
    using b nz nn by (simp add: or_number_def)
  show ?thesis
    using up_not_down [of "or_string (strings p ''barrierType'') ''up-and-out''"]
      not_le_if_less [of "number_property p ''spot''" b]
      not_le_if_less [of b "number_property p ''spot''"]
    by (auto simp: BarrierOption_def eff MonteCarloSimulation_def sim.defs barrier_option.defs
        Let_def)
qed

theorem BarrierOption_validation_witness:
  "numbers (barrier_params ''up-and-out'' (Fin 90)) ''barrier'' = Some (Fin 90) \<and>
   Fin 90 \<noteq> Fin 0 \<and> Fin 90 \<noteq> NaN \<and>
   BarrierOption (barrier_params ''up-and-out'' (Fin 90)) =
     Inl (Error ''Up barrier must be above spot price'') \<and>
   (\<exists>this. BarrierOption (barrier_params ''down-and-in'' (Fin 90)) = Inr this \<and>
           barrier this = Fin 90)"
  using BarrierOption_validation [of "barrier_params ''up-and-out'' (Fin 90)" "Fin 90"]
    BarrierOption_validation [of "barrier_params ''down-and-in'' (Fin 90)" "Fin 90"]
  by (simp add: barrier_params_def number_property_def or_string_def startsWith_def Let_def) blast

lemma exp_shift_bound: "120 * exp (- (2913 / 25000) :: real) \<le> 119"
proof -
  have "1 + 2913 / 25000 \<le> exp (2913 / 25000 :: real)"
    by (rule exp_ge_add_one_self)
  then have "inverse (exp (2913 / 25000 :: real)) \<le> inverse (1 + 2913 / 25000)"
    by (intro le_imp_inverse_le) simp_all
  then have "exp (- (2913 / 25000) :: real) \<le> 25000 / 27913"
    by (simp add: exp_minus)
  then show ?thesis by simp
qed

text \<open>
  On a path that peaks at 119, below the up barrier 120, the up-and-out call pays; after
  the correction it pays nothing: the barrier used for the repricing lies at or below
  119, so it was moved toward the spot, not away from it.
\<close>

theorem adjustForContinuousBarrier_inward_counterexample:
  "(\<exists>res. BarrierOption_calculatePrice sample_barrier (Some (paths sample_result)) (\<lambda>_. 1 / 2, 0) =
            Inr (res, (\<lambda>_. 1 / 2, 0)) \<and> payoffs res = [Fin (10 * exp (- (1 / 20)))]) \<and>
   (\<exists>res. adjustForContinuousBarrier sample_barrier sample_result (\<lambda>_. 1 / 2, 0) =
            (Inr (res, (\<lambda>_. 1 / 2, 0)), sample_barrier) \<and> payoffs res = [Fin 0])"
  using exp_shift_bound
  by (simp add: adjustForContinuousBarrier_def BarrierOption_calculatePrice_def
      paths_or_simulate_def present_value_def calculateConfidenceInterval_def
      barrier_payoff_def checkBarrierHit_def vanilla_payoff_def final_price_def
      Math_max_def Math_pow2_def sample_barrier_def sample_result_def startsWith_def endsWith_def
      suffix_def Let_def minus_jsnum_def)


text \<open>
  C2. On a non-empty path set, \<open>adjustForContinuousBarrier\<close> returns what
  \<open>calculatePrice\<close> computes on the paths of the given result with the barrier replaced
  by \<open>barrier * exp(-beta * sigma * sqrt(T / n))\<close> for an up barrier and by
  \<open>barrier * exp(beta * sigma * sqrt(T / n))\<close> otherwise, \<open>beta = 0.5826\<close>, and leaves
  the option with its original barrier. The payoffs are evaluated anew against the
  shifted barrier; the payoffs of the given result are not used. For a positive barrier
  and a positive adjustment the shift is toward the spot: an up barrier is lowered, a
  down barrier is raised.
\<close>

theorem adjustForContinuousBarrier_reprices:
  assumes "paths result \<noteq> []"
  shows "let adjustment = Fin 0.5826 * sigma this * Math_sqrt (T this / steps this);
             up = startsWith (barrierType this) ''up'';
             shifted = (if up then barrier this * Math_exp (- adjustment)
                        else barrier this * Math_exp adjustment)
         in adjustForContinuousBarrier this result g =
              (BarrierOption_calculatePrice (this \<lparr> barrier := shifted \<rparr>)
                 (Some (paths result)) g, this) \<and>
            (\<exists>res. BarrierOption_calculatePrice (this \<lparr> barrier := shifted \<rparr>)
                     (Some (paths result)) g = Inr (res, g) \<and>
                   paths res = paths result \<and>
                   payoffs res =
                     map (\<lambda>path. barrier_payoff (this \<lparr> barrier := shifted \<rparr>) path *
                                  Math_exp (- r this * T this)) (paths result)) \<and>
            (\<forall>b a. barrier this = Fin b \<and> 0 < b \<and> adjustment = Fin a \<and> 0 < a \<longrightarrow>
               (\<exists>b'. shifted = Fin b' \<and> (if up then b' < b else b < b')))"
proof -
  let ?adj = "Fin 0.5826 * sigma this * Math_sqrt (T this / steps this)"
  let ?shifted = "if startsWith (barrierType this) ''up'' then barrier this * Math_exp (- ?adj)
                  else barrier this * Math_exp ?adj"
  let ?this1 = "this \<lparr> barrier := ?shifted \<rparr>"
  from assms have "map (barrier_payoff ?this1) (paths result) \<noteq> []" by simp
  from present_value_payoffs [OF this, of ?this1 "paths result"]
  obtain res where pv: "present_value ?this1 (paths result)
                          (map (barrier_payoff ?this1) (paths result)) = Inr res"
    and ps: "paths res = paths result"
    and pay: "payoffs res = map (\<lambda>p. p * Math_exp (- r ?this1 * T ?this1))
                              (map (barrier_payoff ?this1) (paths result))"
    by blast
  have calc: "BarrierOption_calculatePrice ?this1 (Some (paths result)) g = Inr (res, g)"
    using pv by (simp add: BarrierOption_calculatePrice_def paths_or_simulate_def)
  have 1: "adjustForContinuousBarrier this result g =
             (BarrierOption_calculatePrice ?this1 (Some (paths result)) g, this)"
    unfolding adjustForContinuousBarrier_def Let_def calc by simp
  have 2: "payoffs res = map (\<lambda>path. barrier_payoff ?this1 path * Math_exp (- r this * T this))
                             (paths result)"
    using pay by (simp add: comp_def)
  have 3: "\<exists>b'. ?shifted = Fin b' \<and> (if startsWith (barrierType this) ''up'' then b' < b else b < b')"
    if "barrier this = Fin b" "0 < b" "?adj = Fin a" "0 < a" for a b
    using that by simp
  show ?thesis
    unfolding Let_def using 1 calc ps 2 3 by blast
qed

theorem adjustForContinuousBarrier_reprices_witness:
  "paths sample_result \<noteq> [] \<and> barrier sample_barrier = Fin 120 \<and>
   (\<exists>b'. adjustForContinuousBarrier sample_barrier sample_result (\<lambda>_. 1 / 2, 0) =
           (BarrierOption_calculatePrice (sample_barrier \<lparr> barrier := Fin b' \<rparr>)
              (Some (paths sample_result)) (\<lambda>_. 1 / 2, 0), sample_barrier) \<and> b' < 120)"
proof -
  let ?g = "(\<lambda>_::nat. 1 / 2 :: real, 0 :: nat)"
  let ?adj = "Fin 0.5826 * sigma sample_barrier *
              Math_sqrt (T sample_barrier / steps sample_barrier)"
  let ?shifted = "if startsWith (barrierType sample_barrier) ''up''
                  then barrier sample_barrier * Math_exp (- ?adj)
                  else barrier sample_barrier * Math_exp ?adj"
  have ne: "paths sample_result \<noteq> []" by (simp add: sample_result_def)
  note t = adjustForContinuousBarrier_reprices [OF ne, of sample_barrier ?g, unfolded Let_def]
  from t have A: "adjustForContinuousBarrier sample_barrier sample_result ?g =
                    (BarrierOption_calculatePrice (sample_barrier \<lparr> barrier := ?shifted \<rparr>)
                       (Some (paths sample_result)) ?g, sample_barrier)"
    by (rule conjunct1)
  from t have C: "\<forall>b a. barrier sample_barrier = Fin b \<and> 0 < b \<and> ?adj = Fin a \<and> 0 < a \<longrightarrow>
                    (\<exists>b'. ?shifted = Fin b' \<and>
                       (if startsWith (barrierType sample_barrier) ''up'' then b' < b else b < b'))"
    by (rule conjunct2 [THEN conjunct2])
  have b: "barrier sample_barrier = Fin 120" by (simp add: sample_barrier_def)
  have a: "?adj = Fin (2913 / 25000)" by (simp add: sample_barrier_def)
  have up: "startsWith (barrierType sample_barrier) ''up''"
    by (simp add: sample_barrier_def startsWith_def)
  have "barrier sample_barrier = Fin 120 \<and> (0 :: real) < 120 \<and>
        ?adj = Fin (2913 / 25000) \<and> (0 :: real) < 2913 / 25000"
    using a b by simp
  from C [rule_format, OF this] obtain b' where "?shifted = Fin b'"
    and "if startsWith (barrierType sample_barrier) ''up'' then b' < 120 else 120 < b'"
    by blast
  with up have "?shifted = Fin b'" "b' < 120" by simp_all
  with A ne b show ?thesis by (simp only:) blast
qed


subsection \<open>Lookback options\<close>

text \<open>
  A lookback call and a lookback put get the same correction: both multiply the payoff
  10 by \<open>exp(+0.11652)\<close>.
\<close>

theorem adjustForContinuousMonitoring_same_sign_counterexample:
  "adjustForContinuousMonitoring (sample_lookback ''call'') sample_result =
     adjustForContinuousMonitoring (sample_lookback ''put'') sample_result \<and>
   (\<exists>res. adjustForContinuousMonitoring (sample_lookback ''put'') sample_result = Inr res \<and>
          payoffs res = [Fin (10 * exp (2913 / 25000))] \<and>
          payoffs res \<noteq> [Fin (10 * exp (- (2913 / 25000)))])"
  by (simp add: adjustForContinuousMonitoring_def calculateConfidenceInterval_def
      sample_lookback_def sample_result_def Let_def)

text \<open>
  C3. On a non-empty payoff array, \<open>adjustForContinuousMonitoring\<close> multiplies each
  already discounted payoff by \<open>exp(+beta * sigma * sqrt(T / n))\<close>, \<open>beta = 0.5826\<close>,
  whatever the option type, and returns the mean of the products as the price. It does
  not evaluate the paths again: they are copied to the result and have no influence on
  the payoffs or the price.
\<close>

theorem adjustForContinuousMonitoring_scales:
  assumes "payoffs result \<noteq> []"
  shows "let factor = Math_exp (Fin 0.5826 * sigma this * Math_sqrt (T this / steps this))
         in (\<exists>res. adjustForContinuousMonitoring this result = Inr res \<and>
                   payoffs res = map (\<lambda>payoff. payoff * factor) (payoffs result) \<and>
                   paths res = paths result \<and>
                   (\<forall>qs. payoffs res = map Fin qs \<longrightarrow>
                      price res = Fin (sum_list qs / real (length qs))) \<and>
                   (\<forall>ty. adjustForContinuousMonitoring (this \<lparr> otype := ty \<rparr>) result = Inr res) \<and>
                   (\<forall>ps. adjustForContinuousMonitoring this (result \<lparr> paths := ps \<rparr>) =
                           Inr (res \<lparr> paths := ps \<rparr>)))"
proof -
  let ?f = "Math_exp (Fin 0.5826 * sigma this * Math_sqrt (T this / steps this))"
  let ?adj = "map (\<lambda>payoff. payoff * ?f) (payoffs result)"
  from assms have ne: "?adj \<noteq> []" by simp
  then obtain acc where acc: "reduce1 (+) ?adj = Inr acc"
    using reduce1_nonempty by blast
  from ne obtain ci where ci: "calculateConfidenceInterval ?adj = Inr ci"
    using calculateConfidenceInterval_returns by blast
  let ?res = "\<lparr> price = acc / Fin (real (length ?adj)), confidence = ci,
                 paths = paths result, payoffs = ?adj \<rparr>"
  have 1: "adjustForContinuousMonitoring this result = Inr ?res"
    unfolding adjustForContinuousMonitoring_def Let_def acc ci by simp
  have 2: "price ?res = Fin (sum_list qs / real (length qs))" if "payoffs ?res = map Fin qs" for qs
  proof -
    from that have eq: "?adj = map Fin qs" by simp
    with ne have "qs \<noteq> []" by auto
    with acc eq have "acc = Fin (sum_list qs)" by (simp add: reduce1_plus_Fin)
    moreover have "length ?adj = length qs" unfolding eq by simp
    ultimately show ?thesis using \<open>qs \<noteq> []\<close> by simp
  qed
  have 3: "adjustForContinuousMonitoring (this \<lparr> otype := ty \<rparr>) result = Inr ?res" for ty
    unfolding 1 [symmetric] by (simp add: adjustForContinuousMonitoring_def)
  have 4: "adjustForContinuousMonitoring this (result \<lparr> paths := ps \<rparr>) =
             Inr (?res \<lparr> paths := ps \<rparr>)" for ps
    unfolding adjustForContinuousMonitoring_def Let_def using acc ci by simp
  show ?thesis
    unfolding Let_def
    by (rule exI [of _ ?res]) (use 1 2 3 4 in simp)
qed

theorem adjustForContinuousMonitoring_scales_witness:
  "payoffs sample_result \<noteq> [] \<and>
   (\<exists>res. adjustForContinuousMonitoring (sample_lookback ''put'') sample_result = Inr res \<and>
          payoffs res = map Fin [10 * exp (2913 / 25000)] \<and>
          price res = Fin (10 * exp (2913 / 25000)))"
proof -
  have ne: "payoffs sample_result \<noteq> []" by (simp add: sample_result_def)
  from adjustForContinuousMonitoring_scales [OF ne, of "sample_lookback ''put''", unfolded Let_def]
  obtain res where 1: "adjustForContinuousMonitoring (sample_lookback ''put'') sample_result = Inr res"
    and 2: "payoffs res =
              map (\<lambda>payoff. payoff * Math_exp (Fin 0.5826 * sigma (sample_lookback ''put'') *
                     Math_sqrt (T (sample_lookback ''put'') / steps (sample_lookback ''put''))))
                (payoffs sample_result)"
    and 3: "\<forall>qs. payoffs res = map Fin qs \<longrightarrow> price res = Fin (sum_list qs / real (length qs))"
    by blast
  from 2 have 4: "payoffs res = map Fin [10 * exp (2913 / 25000)]"
    by (simp add: sample_lookback_def sample_result_def)
  with 3 have "price res = Fin (sum_list [10 * exp (2913 / 25000)] /
                                 real (length [10 * exp (2913 / 25000) :: real]))"
    by blast
  with ne 1 4 show ?thesis by simp
qed


subsection \<open>Greeks and risk metrics\<close>

lemma simulatePaths_returns:
  assumes "simulations s = Fin (real m)" and "m < 4294967296"
    and "steps s = Fin (real n)" and "n + 1 < 4294967296"
  shows "\<exists>pss g'. simulatePaths s g = Inr (pss, g') \<and> length pss = m \<and>
           (\<not> jumpDiffusion s \<longrightarrow>
              g' = (fst g, snd g + m * n * (if useAntithetic s then (m + 1) div 2 else m)))"
proof -
  have "simulatePaths s g = paths_loop s m g"
    using assms(2) by (simp only: simulatePaths_def assms(1) array_length_nat option.case)
  with paths_loop_chain [OF assms, of m g] show ?thesis by auto
qed

lemma calculatePrice_returns:
  "ps \<noteq> [] \<Longrightarrow> \<exists>res. calculatePrice s (Some ps) g = Inr (res, g)"
proof -
  assume "ps \<noteq> []"
  then have "map (\<lambda>path. vanilla_payoff s (final_price path)) ps \<noteq> []" by simp
  from present_value_returns [OF this, of s ps] show ?thesis
    by (auto simp: calculatePrice_def paths_or_simulate_def)
qed

lemma reprice_returns:
  assumes "simulations s = Fin (real m)" and "m < 4294967296" and "0 < m"
    and "steps s = Fin (real n)" and "n + 1 < 4294967296"
  shows "\<exists>res g'. reprice s g = Inr (res, g') \<and>
           (\<not> jumpDiffusion s \<longrightarrow>
              g' = (fst g, snd g + m * n * (if useAntithetic s then (m + 1) div 2 else m)))"
proof -
  obtain pss g' where sim: "simulatePaths s g = Inr (pss, g')" and len: "length pss = m"
    and cnt: "\<not> jumpDiffusion s \<longrightarrow>
                g' = (fst g, snd g + m * n * (if useAntithetic s then (m + 1) div 2 else m))"
    using simulatePaths_returns [OF assms(1,2,4,5), of g] by blast
  from len assms(3) have "pss \<noteq> []" by auto
  then obtain res where "calculatePrice s (Some pss) g' = Inr (res, g')"
    using calculatePrice_returns by blast
  with sim cnt show ?thesis by (simp add: reprice_def)
qed

lemma bumped_fields:
  assumes "k \<noteq> ''steps''" and "k \<noteq> ''simulations''"
  shows "steps (MonteCarloSimulation (spread_with this k v)) = steps this"
    and "simulations (MonteCarloSimulation (spread_with this k v)) = simulations this"
    and "useAntithetic (MonteCarloSimulation (spread_with this k v)) = useAntithetic this"
    and "useStratified (MonteCarloSimulation (spread_with this k v)) = useStratified this"
    and "jumpDiffusion (MonteCarloSimulation (spread_with this k v)) = jumpDiffusion this"
    and "otype (MonteCarloSimulation (spread_with this k v)) = otype this"
  using assms
  by (simp_all add: MonteCarloSimulation_def spread_with_def own_properties_def
      number_property_def with_default_def map_add_def Let_def)

lemma spot_bumped_fields:
  "S0 (MonteCarloSimulation (spread_with this ''spot'' v)) = v"
  "K (MonteCarloSimulation (spread_with this ''spot'' v)) = NaN"
  "sigma (MonteCarloSimulation (spread_with this ''spot'' v)) = NaN"
  "r (MonteCarloSimulation (spread_with this ''spot'' v)) = NaN"
  "T (MonteCarloSimulation (spread_with this ''spot'' v)) = NaN"
  "dt (MonteCarloSimulation (spread_with this ''spot'' v)) = NaN"
  "numbers (spread_with this ''spot'' v) ''strike'' = None"
  "numbers (spread_with this ''spot'' v) ''K'' = Some (K this)"
  by (simp_all add: MonteCarloSimulation_def spread_with_def own_properties_def
      number_property_def with_default_def map_add_def Let_def)


lemma bumped_reprice:
  assumes "simulations this = Fin (real m)" and "m < 4294967296" and "0 < m"
    and "steps this = Fin (real n)" and "n + 1 < 4294967296"
    and "k \<noteq> ''steps''" and "k \<noteq> ''simulations''"
  shows "\<exists>res g'. reprice (MonteCarloSimulation (spread_with this k v)) g = Inr (res, g') \<and>
           (\<not> jumpDiffusion this \<longrightarrow>
              g' = (fst g, snd g + m * n * (if useAntithetic this then (m + 1) div 2 else m)))"
  using reprice_returns [of "MonteCarloSimulation (spread_with this k v)" m n g] assms
  by (simp only: bumped_fields [OF assms(6,7)])

lemma calculateGreeks_returns:
  assumes m: "simulations this = Fin (real m)" and mb: "m < 4294967296" and mp: "0 < m"
    and n: "steps this = Fin (real n)" and nb: "n + 1 < 4294967296"
    and base: "this_calculatePrice this paths_arg g0 = Inr (basePrice, g1)"
  shows "\<exists>gr g'. calculateGreeks this_calculatePrice this paths_arg g0 = Inr (gr, g') \<and>
           delta gr = NaN \<and> gamma gr = NaN \<and> theta gr = NaN \<and> vega gr = NaN \<and> rho gr = NaN \<and>
           (\<not> jumpDiffusion this \<longrightarrow>
              g' = (fst g1, snd g1 +
                     7 * (m * n * (if useAntithetic this then (m + 1) div 2 else m))))"
proof -
  let ?e = "m * n * (if useAntithetic this then (m + 1) div 2 else m)"
  let ?up = "MonteCarloSimulation (spread_with this ''spot'' (S0 this * Fin (1 + 0.01)))"
  let ?down = "MonteCarloSimulation (spread_with this ''spot'' (S0 this * Fin (1 - 0.01)))"
  let ?th = "MonteCarloSimulation (spread_with this ''maturity'' (T this * Fin (1 - 0.01)))"
  let ?ve = "MonteCarloSimulation (spread_with this ''volatility'' (sigma this * Fin (1 + 0.01)))"
  let ?rh = "MonteCarloSimulation (spread_with this ''riskFreeRate'' (r this * Fin (1 + 0.01)))"
  note br = bumped_reprice [OF m mb mp n nb]
  have spot: "\<exists>res g'. reprice (MonteCarloSimulation (spread_with this ''spot'' v)) g =
                 Inr (res, g') \<and> (\<not> jumpDiffusion this \<longrightarrow> g' = (fst g, snd g + ?e))" for v g
    by (rule br) simp_all
  have maturity: "\<exists>res g'. reprice (MonteCarloSimulation (spread_with this ''maturity'' v)) g =
                 Inr (res, g') \<and> (\<not> jumpDiffusion this \<longrightarrow> g' = (fst g, snd g + ?e))" for v g
    by (rule br) simp_all
  have volatility: "\<exists>res g'. reprice (MonteCarloSimulation (spread_with this ''volatility'' v)) g =
                 Inr (res, g') \<and> (\<not> jumpDiffusion this \<longrightarrow> g' = (fst g, snd g + ?e))" for v g
    by (rule br) simp_all
  have rate: "\<exists>res g'. reprice (MonteCarloSimulation (spread_with this ''riskFreeRate'' v)) g =
                 Inr (res, g') \<and> (\<not> jumpDiffusion this \<longrightarrow> g' = (fst g, snd g + ?e))" for v g
    by (rule br) simp_all
  obtain up1 g2 where 1: "reprice ?up g1 = Inr (up1, g2)"
    and c1: "\<not> jumpDiffusion this \<longrightarrow> g2 = (fst g1, snd g1 + ?e)"
    using spot [of _ g1] by blast
  obtain down1 g3 where 2: "reprice ?down g2 = Inr (down1, g3)"
    and c2: "\<not> jumpDiffusion this \<longrightarrow> g3 = (fst g2, snd g2 + ?e)"
    using spot [of _ g2] by blast
  obtain up2 g4 where 3: "reprice ?up g3 = Inr (up2, g4)"
    and c3: "\<not> jumpDiffusion this \<longrightarrow> g4 = (fst g3, snd g3 + ?e)"
    using spot [of _ g3] by blast
  obtain down2 g5 where 4: "reprice ?down g4 = Inr (down2, g5)"
    and c4: "\<not> jumpDiffusion this \<longrightarrow> g5 = (fst g4, snd g4 + ?e)"
    using spot [of _ g4] by blast
  obtain th g6 where 5: "reprice ?th g5 = Inr (th, g6)"
    and c5: "\<not> jumpDiffusion this \<longrightarrow> g6 = (fst g5, snd g5 + ?e)"
    using maturity [of _ g5] by blast
  obtain ve g7 where 6: "reprice ?ve g6 = Inr (ve, g7)"
    and c6: "\<not> jumpDiffusion this \<longrightarrow> g7 = (fst g6, snd g6 + ?e)"
    using volatility [of _ g6] by blast
  obtain rh g8 where 7: "reprice ?rh g7 = Inr (rh, g8)"
    and c7: "\<not> jumpDiffusion this \<longrightarrow> g8 = (fst g7, snd g7 + ?e)"
    using rate [of _ g7] by blast
  have cnt: "\<not> jumpDiffusion this \<longrightarrow> g8 = (fst g1, snd g1 + 7 * ?e)"
    using c1 c2 c3 c4 c5 c6 c7 by auto
  have "calculateGreeks this_calculatePrice this paths_arg g0 =
          Inr (\<lparr> delta = NaN, gamma = NaN, theta = NaN, vega = NaN, rho = NaN \<rparr>, g8)"
    unfolding calculateGreeks_def Let_def bind_result_def base sum.case prod.case
      1 2 3 4 5 6 7 object_to_number_def
    by (simp add: minus_jsnum_def)
  with cnt show ?thesis by simp
qed

lemma divide_by_NaN: "a / NaN = NaN"
  by (cases a) simp_all

lemma zero_by_zero: "Fin 0 / Fin (real (0 :: nat)) = NaN"
  by simp

lemma filter_none: "\<forall>x \<in> set xs. \<not> P x \<Longrightarrow> filter P xs = []"
  by (simp add: filter_empty_conv)

lemma calculateRiskMetrics_no_negative_return:
  assumes ps: "ps \<noteq> []"
    and nonneg: "\<forall>path \<in> set ps. \<not> Math_log (final_price path / S0 this) < Fin 0"
  shows "\<exists>rm. calculateRiskMetrics this ps = Inr rm \<and> sortinoRatio rm = NaN"
proof -
  let ?returns = "map (\<lambda>price. Math_log (price / S0 this)) (map final_price ps)"
  from ps have ne: "?returns \<noteq> []" by simp
  from reduce1_nonempty [OF ne, of "(+)"]
  obtain acc where acc: "reduce1 (+) ?returns = Inr acc" ..
  have none: "filter (\<lambda>x. x < Fin 0) ?returns = []"
    by (rule filter_none) (use nonneg in simp)
  show ?thesis
    unfolding calculateRiskMetrics_def Let_def acc none sum.case
    apply (intro exI conjI)
     apply (rule refl)
    apply (simp only: risk_metrics.select_convs)
    apply (simp only: foldl.simps list.size zero_by_zero divide_by_NaN Math_sqrt.simps)
    done
qed

text \<open>
  C9. Neither degeneracy raises an error. For counts that are array lengths, with at
  least one simulation, and a base price that \<^verbatim>\<open>this.calculatePrice\<close> returns: when
  the rate is 0, \<open>calculateGreeks\<close> returns and its \<open>rho\<close> is not a finite number. On a
  non-empty path set with no negative terminal log-return, \<open>calculateRiskMetrics\<close>
  returns and its \<open>sortinoRatio\<close> is not a finite number.
\<close>

theorem degenerate_metrics_not_finite:
  assumes m: "simulations this = Fin (real m)" and mb: "m < 4294967296" and mp: "0 < m"
    and n: "steps this = Fin (real n)" and nb: "n + 1 < 4294967296"
    and base: "this_calculatePrice this paths_arg g0 = Inr (basePrice, g1)"
    and ps: "ps \<noteq> []"
  shows "(r this = Fin 0 \<longrightarrow>
            (\<exists>gr g'. calculateGreeks this_calculatePrice this paths_arg g0 = Inr (gr, g') \<and>
                     \<not> is_finite (rho gr))) \<and>
         ((\<forall>path \<in> set ps. \<not> Math_log (final_price path / S0 this) < Fin 0) \<longrightarrow>
            (\<exists>rm. calculateRiskMetrics this ps = Inr rm \<and> \<not> is_finite (sortinoRatio rm)))"
proof (intro conjI impI)
  from calculateGreeks_returns
         [where this_calculatePrice = this_calculatePrice and this = this and m = m and n = n
            and paths_arg = paths_arg and ?g0.0 = g0 and basePrice = basePrice and ?g1.0 = g1,
          OF m mb mp n nb base]
  obtain gr g' where A: "calculateGreeks this_calculatePrice this paths_arg g0 = Inr (gr, g')"
    and B: "rho gr = NaN"
    by blast
  have "\<not> is_finite (rho gr)" by (simp only: B is_finite.simps not_False_eq_True)
  with A show "\<exists>gr g'. calculateGreeks this_calculatePrice this paths_arg g0 = Inr (gr, g') \<and>
                     \<not> is_finite (rho gr)"
    by blast
next
  assume "\<forall>path \<in> set ps. \<not> Math_log (final_price path / S0 this) < Fin 0"
  from calculateRiskMetrics_no_negative_return [OF ps this]
  obtain rm where C: "calculateRiskMetrics this ps = Inr rm" and D: "sortinoRatio rm = NaN"
    by blast
  have "\<not> is_finite (sortinoRatio rm)" by (simp only: D is_finite.simps not_False_eq_True)
  with C show "\<exists>rm. calculateRiskMetrics this ps = Inr rm \<and> \<not> is_finite (sortinoRatio rm)"
    by blast
qed

theorem degenerate_metrics_not_finite_witness:
  "simulations (sample_sim \<lparr> r := Fin 0 \<rparr>) = Fin (real 3) \<and> (3 :: nat) < 4294967296 \<and>
   (0 :: nat) < 3 \<and> steps (sample_sim \<lparr> r := Fin 0 \<rparr>) = Fin (real 2) \<and>
   (2 :: nat) + 1 < 4294967296 \<and> [[Fin 100, Fin 100]] \<noteq> [] \<and>
   r (sample_sim \<lparr> r := Fin 0 \<rparr>) = Fin 0 \<and>
   Math_log (final_price [Fin 100, Fin 100] / S0 (sample_sim \<lparr> r := Fin 0 \<rparr>)) = Fin 0 \<and>
   (\<exists>gr g'. calculateGreeks calculatePrice (sample_sim \<lparr> r := Fin 0 \<rparr>)
              (Some [[Fin 100, Fin 100]]) (\<lambda>_. 1 / 2, 0) = Inr (gr, g') \<and>
            \<not> is_finite (rho gr)) \<and>
   (\<exists>rm. calculateRiskMetrics (sample_sim \<lparr> r := Fin 0 \<rparr>) [[Fin 100, Fin 100]] = Inr rm \<and>
         \<not> is_finite (sortinoRatio rm))"
proof -
  let ?s = "sample_sim \<lparr> r := Fin 0 \<rparr>"
  let ?ps = "[[Fin 100, Fin 100]]"
  let ?g = "(\<lambda>_::nat. 1 / 2 :: real, 0 :: nat)"
  have ne: "?ps \<noteq> []" by simp
  obtain basePrice where base: "calculatePrice ?s (Some ?ps) ?g = Inr (basePrice, ?g)"
    using calculatePrice_returns [OF ne] by blast
  have m: "simulations ?s = Fin (real 3)" and n: "steps ?s = Fin (real 2)"
    and r0: "r ?s = Fin 0"
    by (simp_all add: sample_sim_def)
  have ret: "Math_log (final_price [Fin 100, Fin 100] / S0 ?s) = Fin 0"
    by (simp add: sample_sim_def final_price_def)
  then have nonneg: "\<forall>path \<in> set ?ps. \<not> Math_log (final_price path / S0 ?s) < Fin 0"
    by simp
  have mb: "(3 :: nat) < 4294967296" and mp: "(0 :: nat) < 3"
    and nb: "(2 :: nat) + 1 < 4294967296"
    by simp_all
  from degenerate_metrics_not_finite
         [where this_calculatePrice = calculatePrice and this = ?s and m = 3 and n = 2
            and paths_arg = "Some ?ps" and ?g0.0 = ?g and basePrice = basePrice and ?g1.0 = ?g
            and ps = ?ps,
          OF m mb mp n nb base ne] r0 nonneg
  have "(\<exists>gr g'. calculateGreeks calculatePrice ?s (Some ?ps) ?g = Inr (gr, g') \<and>
                 \<not> is_finite (rho gr)) \<and>
        (\<exists>rm. calculateRiskMetrics ?s ?ps = Inr rm \<and> \<not> is_finite (sortinoRatio rm))"
    by simp
  with m n r0 ret show ?thesis by simp
qed

text \<open>
  C1. \<open>calculateGreeks\<close> on the sample simulation (spot 100, strike 100, volatility 0.2,
  rate 0.05, maturity 1, two steps, three simulations). The object
  \<^verbatim>\<open>{...this, spot: this.S0 * (1 + h)}\<close> has no property \<^verbatim>\<open>strike\<close>: the instance
  holds its parameters under the names \<^verbatim>\<open>K\<close>, \<^verbatim>\<open>sigma\<close>, \<^verbatim>\<open>r\<close> and \<^verbatim>\<open>T\<close>,
  which the constructor does not read. The bumped simulation has spot 101 and no strike,
  volatility, rate or maturity, where the sample has 100, 0.2, 0.05 and 1. All five
  Greeks are \<^verbatim>\<open>NaN\<close>. The call draws 84 uniform numbers, 12 for each of seven
  simulations: Gamma simulates both bumped configurations again.
\<close>

theorem calculateGreeks_bump_drops_parameters:
  "K sample_sim = Fin 100 \<and> sigma sample_sim = Fin 0.2 \<and> r sample_sim = Fin 0.05 \<and>
   T sample_sim = Fin 1 \<and>
   numbers (spread_with sample_sim ''spot'' (S0 sample_sim * Fin (1 + 0.01))) ''strike'' = None \<and>
   S0 (MonteCarloSimulation (spread_with sample_sim ''spot'' (S0 sample_sim * Fin (1 + 0.01)))) =
     Fin 101 \<and>
   K (MonteCarloSimulation (spread_with sample_sim ''spot'' (S0 sample_sim * Fin (1 + 0.01)))) =
     NaN \<and>
   sigma (MonteCarloSimulation (spread_with sample_sim ''spot'' (S0 sample_sim * Fin (1 + 0.01)))) =
     NaN \<and>
   r (MonteCarloSimulation (spread_with sample_sim ''spot'' (S0 sample_sim * Fin (1 + 0.01)))) =
     NaN \<and>
   T (MonteCarloSimulation (spread_with sample_sim ''spot'' (S0 sample_sim * Fin (1 + 0.01)))) =
     NaN \<and>
   (\<exists>gr. calculateGreeks calculatePrice sample_sim (Some [[Fin 100, Fin 105, Fin 110]])
            (\<lambda>_. 1 / 2, 0) = Inr (gr, (\<lambda>_. 1 / 2, 84)) \<and>
         delta gr = NaN \<and> gamma gr = NaN \<and> theta gr = NaN \<and> vega gr = NaN \<and> rho gr = NaN)"
proof -
  let ?ps = "[[Fin 100, Fin 105, Fin 110]]"
  let ?g = "(\<lambda>_::nat. 1 / 2 :: real, 0 :: nat)"
  have ne: "?ps \<noteq> []" by simp
  obtain basePrice where base: "calculatePrice sample_sim (Some ?ps) ?g = Inr (basePrice, ?g)"
    using calculatePrice_returns [OF ne] by blast
  have m: "simulations sample_sim = Fin (real 3)" and n: "steps sample_sim = Fin (real 2)"
    by (simp_all add: sample_sim_def)
  have mb: "(3 :: nat) < 4294967296" and mp: "(0 :: nat) < 3"
    and nb: "(2 :: nat) + 1 < 4294967296"
    by simp_all
  from calculateGreeks_returns
         [where this_calculatePrice = calculatePrice and this = sample_sim and m = 3 and n = 2
            and paths_arg = "Some ?ps" and ?g0.0 = ?g and basePrice = basePrice and ?g1.0 = ?g,
          OF m mb mp n nb base]
  obtain gr g' where gr: "calculateGreeks calculatePrice sample_sim (Some ?ps) ?g = Inr (gr, g')"
    and nan: "delta gr = NaN" "gamma gr = NaN" "theta gr = NaN" "vega gr = NaN" "rho gr = NaN"
    and cnt: "\<not> jumpDiffusion sample_sim \<longrightarrow>
                g' = (fst ?g, snd ?g +
                       7 * (3 * 2 * (if useAntithetic sample_sim then (3 + 1) div 2 else 3)))"
    by auto
  from cnt have "g' = (\<lambda>_. 1 / 2, 84)" by (simp add: sample_sim_def)
  with gr nan have "\<exists>gr. calculateGreeks calculatePrice sample_sim (Some ?ps) ?g =
                           Inr (gr, (\<lambda>_. 1 / 2, 84)) \<and> delta gr = NaN \<and> gamma gr = NaN \<and>
                           theta gr = NaN \<and> vega gr = NaN \<and> rho gr = NaN"
    by auto
  moreover have "S0 sample_sim * Fin (1 + 0.01) = Fin 101" by (simp add: sample_sim_def)
  moreover have "K sample_sim = Fin 100" "sigma sample_sim = Fin 0.2" "r sample_sim = Fin 0.05"
    "T sample_sim = Fin 1"
    by (simp_all add: sample_sim_def)
  ultimately show ?thesis by (simp only: spot_bumped_fields)
qed

end
